theory Spec2Isabelle
  imports Complex_Main "HOL-Library.Sublist"
begin

section \<open>JavaScript numbers\<close>

text \<open>
  A JavaScript number is an IEEE 754 binary64 value: a finite value, one of the two
  infinities, or NaN. A finite value is carried as the real number it denotes, and every
  arithmetic operation on finite operands rounds its exact result to the nearest double,
  ties to even, overflowing to an infinity. The model has a single zero. The special
  values follow the IEEE rules that the source relies on: NaN propagates through every
  operation and makes every comparison false, a non-zero finite value divided by zero is
  an infinity, and \<open>0/0\<close> is NaN.
\<close>

datatype jsnum = NaN | PInf | NInf | Fin real

text \<open>
  Rounding. \<open>rhe\<close> rounds a real to the nearest integer, a tie going to the even
  neighbour. \<open>binade x\<close> is the exponent of the binade of \<open>x\<close>, not below that of
  the subnormal range, so that the doubles around \<open>x\<close> are the integer multiples of
  \<open>2 ^ (binade x - 52)\<close>. \<open>roundReal\<close> rounds with an unbounded exponent, and
  \<open>rnd\<close> is the result of an operation whose exact value is \<open>x\<close>: an infinity
  when the rounded magnitude reaches \<open>2 ^ 1024\<close>. \<open>dbl m e\<close> is the number
  \<open>m * 2 ^ e\<close>, the notation for the doubles written out below.
\<close>

definition rhe :: "real \<Rightarrow> int" where
  "rhe x =
     (let f = \<lfloor>x\<rfloor>; r = x - of_int f
      in if r < 1 / 2 then f else if 1 / 2 < r then f + 1 else if even f then f else f + 1)"

definition binade :: "real \<Rightarrow> int" where
  "binade x = max \<lfloor>log 2 \<bar>x\<bar>\<rfloor> (- 1022)"

definition roundReal :: "real \<Rightarrow> real" where
  "roundReal x =
     (if x = 0 then 0
      else of_int (rhe (x / 2 powi (binade x - 52))) * 2 powi (binade x - 52))"

definition rnd :: "real \<Rightarrow> jsnum" where
  "rnd x =
     (let r = roundReal x
      in if 2 powi 1024 \<le> r then PInf else if r \<le> - (2 powi 1024) then NInf else Fin r)"

definition dbl :: "int \<Rightarrow> int \<Rightarrow> real" where
  "dbl m e = of_int m * 2 powi e"

fun isFinite :: "jsnum \<Rightarrow> bool" where
  "isFinite (Fin r) = True"
| "isFinite NaN = False"
| "isFinite PInf = False"
| "isFinite NInf = False"

text \<open>The comparisons \<open><\<close>, \<open>>\<close> and \<open><=\<close>.\<close>

fun js_lt :: "jsnum \<Rightarrow> jsnum \<Rightarrow> bool" where
  "js_lt (Fin a) (Fin b) = (a < b)"
| "js_lt (Fin a) PInf = True"
| "js_lt NInf (Fin b) = True"
| "js_lt NInf PInf = True"
| "js_lt NaN b = False"
| "js_lt PInf b = False"
| "js_lt (Fin a) NaN = False"
| "js_lt (Fin a) NInf = False"
| "js_lt NInf NaN = False"
| "js_lt NInf NInf = False"

definition js_gt :: "jsnum \<Rightarrow> jsnum \<Rightarrow> bool" where
  "js_gt a b = js_lt b a"

fun js_le :: "jsnum \<Rightarrow> jsnum \<Rightarrow> bool" where
  "js_le (Fin a) (Fin b) = (a \<le> b)"
| "js_le (Fin a) PInf = True"
| "js_le NInf (Fin b) = True"
| "js_le NInf PInf = True"
| "js_le NInf NInf = True"
| "js_le PInf PInf = True"
| "js_le NaN b = False"
| "js_le PInf NaN = False"
| "js_le PInf NInf = False"
| "js_le PInf (Fin b) = False"
| "js_le (Fin a) NaN = False"
| "js_le (Fin a) NInf = False"
| "js_le NInf NaN = False"

text \<open>Negation is exact; addition and subtraction round.\<close>

fun js_neg :: "jsnum \<Rightarrow> jsnum" where
  "js_neg (Fin a) = Fin (- a)"
| "js_neg PInf = NInf"
| "js_neg NInf = PInf"
| "js_neg NaN = NaN"

fun js_add :: "jsnum \<Rightarrow> jsnum \<Rightarrow> jsnum" where
  "js_add (Fin a) (Fin b) = rnd (a + b)"
| "js_add NaN b = NaN"
| "js_add (Fin a) NaN = NaN"
| "js_add PInf NaN = NaN"
| "js_add NInf NaN = NaN"
| "js_add PInf NInf = NaN"
| "js_add NInf PInf = NaN"
| "js_add PInf PInf = PInf"
| "js_add PInf (Fin b) = PInf"
| "js_add (Fin a) PInf = PInf"
| "js_add NInf NInf = NInf"
| "js_add NInf (Fin b) = NInf"
| "js_add (Fin a) NInf = NInf"

definition js_sub :: "jsnum \<Rightarrow> jsnum \<Rightarrow> jsnum" where
  "js_sub a b = js_add a (js_neg b)"

text \<open>The infinity with the sign of a non-zero real.\<close>

definition inf_of_sign :: "real \<Rightarrow> jsnum" where
  "inf_of_sign r = (if 0 < r then PInf else NInf)"

fun js_mul :: "jsnum \<Rightarrow> jsnum \<Rightarrow> jsnum" where
  "js_mul (Fin a) (Fin b) = rnd (a * b)"
| "js_mul NaN b = NaN"
| "js_mul (Fin a) NaN = NaN"
| "js_mul PInf NaN = NaN"
| "js_mul NInf NaN = NaN"
| "js_mul PInf PInf = PInf"
| "js_mul PInf NInf = NInf"
| "js_mul NInf PInf = NInf"
| "js_mul NInf NInf = PInf"
| "js_mul PInf (Fin b) = (if b = 0 then NaN else inf_of_sign b)"
| "js_mul NInf (Fin b) = (if b = 0 then NaN else inf_of_sign (- b))"
| "js_mul (Fin a) PInf = (if a = 0 then NaN else inf_of_sign a)"
| "js_mul (Fin a) NInf = (if a = 0 then NaN else inf_of_sign (- a))"

text \<open>
  Division. The single zero of the model is taken as \<open>+0\<close>: a non-zero finite value
  divided by zero is the infinity with the sign of the numerator, and an infinity
  divided by a finite value takes the sign of the quotient with \<open>0\<close> counted as
  positive. A quotient of finite values rounds, so it can overflow to an infinity or
  underflow to zero.
\<close>

fun js_div :: "jsnum \<Rightarrow> jsnum \<Rightarrow> jsnum" where
  "js_div (Fin a) (Fin b) =
     (if b = 0 then (if a = 0 then NaN else inf_of_sign a) else rnd (a / b))"
| "js_div NaN b = NaN"
| "js_div (Fin a) NaN = NaN"
| "js_div PInf NaN = NaN"
| "js_div NInf NaN = NaN"
| "js_div (Fin a) PInf = Fin 0"
| "js_div (Fin a) NInf = Fin 0"
| "js_div PInf PInf = NaN"
| "js_div PInf NInf = NaN"
| "js_div NInf PInf = NaN"
| "js_div NInf NInf = NaN"
| "js_div PInf (Fin b) = (if 0 \<le> b then PInf else NInf)"
| "js_div NInf (Fin b) = (if 0 \<le> b then NInf else PInf)"

text \<open>
  \<open>Math.log\<close>, \<open>Math.exp\<close> and \<open>Math.sqrt\<close> belong to the JavaScript engine.
  The language fixes their values at the special arguments and at \<open>log 1 = 0\<close>,
  \<open>exp 0 = 1\<close>, \<open>sqrt 0 = 0\<close>, and leaves every other value to the engine as an
  approximation. The engine is therefore a parameter \<open>E\<close> of the model: three
  functions giving the result at the remaining finite arguments, which may be any
  number, an infinity (overflow) or zero (underflow) included. Every theorem about the
  density estimator holds for every engine. \<open>Math.PI\<close> is the double nearest to
  \<open>\<pi>\<close>.
\<close>

record mathEngine =
  engineLog :: "real \<Rightarrow> jsnum"
  engineExp :: "real \<Rightarrow> jsnum"
  engineSqrt :: "real \<Rightarrow> jsnum"

fun Math_log :: "mathEngine \<Rightarrow> jsnum \<Rightarrow> jsnum" where
  "Math_log E (Fin a) =
     (if a < 0 then NaN else if a = 0 then NInf else if a = 1 then Fin 0 else engineLog E a)"
| "Math_log E PInf = PInf"
| "Math_log E NInf = NaN"
| "Math_log E NaN = NaN"

fun Math_exp :: "mathEngine \<Rightarrow> jsnum \<Rightarrow> jsnum" where
  "Math_exp E (Fin a) = (if a = 0 then Fin 1 else engineExp E a)"
| "Math_exp E PInf = PInf"
| "Math_exp E NInf = Fin 0"
| "Math_exp E NaN = NaN"

fun Math_sqrt :: "mathEngine \<Rightarrow> jsnum \<Rightarrow> jsnum" where
  "Math_sqrt E (Fin a) = (if a < 0 then NaN else if a = 0 then Fin 0 else engineSqrt E a)"
| "Math_sqrt E PInf = PInf"
| "Math_sqrt E NInf = NaN"
| "Math_sqrt E NaN = NaN"

definition Math_PI :: jsnum where
  "Math_PI = Fin (dbl 884279719003555 (- 48))"

text \<open>
  \<open>Math.min(...xs)\<close> and \<open>Math.max(...xs)\<close>: the fold starts from \<open>+Infinity\<close>
  (\<open>-Infinity\<close>), and a NaN argument makes the result NaN.
\<close>

fun js_min2 :: "jsnum \<Rightarrow> jsnum \<Rightarrow> jsnum" where
  "js_min2 NaN b = NaN"
| "js_min2 a NaN = NaN"
| "js_min2 a b = (if js_lt b a then b else a)"

fun js_max2 :: "jsnum \<Rightarrow> jsnum \<Rightarrow> jsnum" where
  "js_max2 NaN b = NaN"
| "js_max2 a NaN = NaN"
| "js_max2 a b = (if js_lt a b then b else a)"

definition Math_min :: "jsnum list \<Rightarrow> jsnum" where
  "Math_min xs = foldl js_min2 PInf xs"

definition Math_max :: "jsnum list \<Rightarrow> jsnum" where
  "Math_max xs = foldl js_max2 NInf xs"

section \<open>Points, timestamps and distances\<close>

text \<open>
  A point as the ingestion module hands it over: coordinates already validated as finite
  numbers in range, and \<open>timeRaw\<close> either a string or \<open>null\<close> (\<open>None\<close>). The
  audit reads no other field of a point.
\<close>

record point =
  lat :: real
  lon :: real
  timeRaw :: "string option"

text \<open>
  \<open>Date.parse\<close> belongs to the JavaScript runtime, not to this program, so it is a
  parameter \<open>P\<close> of the model: it maps a string to a time value, an integral number
  of milliseconds, or to NaN, which is \<open>None\<close> here. \<open>parseTimestamp\<close> is the
  source's idiom \<open>timeRaw !== null\<close>, \<open>Date.parse(timeRaw)\<close>, \<open>!isNaN(...)\<close>:
  the result is \<open>Some t\<close> exactly when the point carries a valid timestamp.
\<close>

type_synonym date_parse = "string \<Rightarrow> int option"

definition parseTimestamp :: "date_parse \<Rightarrow> point \<Rightarrow> int option" where
  "parseTimestamp P pt = (case timeRaw pt of None \<Rightarrow> None | Some raw \<Rightarrow> P raw)"

text \<open>JavaScript's \<open>Math.atan2\<close> on finite arguments.\<close>

definition atan2 :: "real \<Rightarrow> real \<Rightarrow> real" where
  "atan2 b a =
     (if 0 < a then arctan (b / a)
      else if a < 0 then (if 0 \<le> b then arctan (b / a) + pi else arctan (b / a) - pi)
      else if 0 < b then pi / 2
      else if b < 0 then - (pi / 2)
      else 0)"

text \<open>
  \<open>haversineDistance\<close> in exact real arithmetic; \<open>Math.sqrt\<close> of a negative
  argument is NaN, and NaN propagates to the result.
\<close>

definition haversineDistance :: "real \<Rightarrow> real \<Rightarrow> real \<Rightarrow> real \<Rightarrow> jsnum" where
  "haversineDistance lat1 lon1 lat2 lon2 =
     (let R = 6371000;
          dLat = (lat2 - lat1) * pi / 180;
          dLon = (lon2 - lon1) * pi / 180;
          a = sin (dLat / 2) * sin (dLat / 2) +
              cos (lat1 * pi / 180) * cos (lat2 * pi / 180) *
              sin (dLon / 2) * sin (dLon / 2)
      in if a < 0 \<or> 1 - a < 0 then NaN
         else Fin (R * (2 * atan2 (sqrt a) (sqrt (1 - a)))))"

text \<open>
  The double-precision \<open>haversineDistance\<close> rounds at every step and its result is not
  determined by the real-valued formula. The audit is therefore modelled over an arbitrary
  distance function \<open>D\<close>, and every theorem about the audit holds for every \<open>D\<close>,
  in particular for the function the JavaScript engine computes. The exact
  \<open>haversineDistance\<close> above is the instance used on concrete inputs.
\<close>

type_synonym distance_fn = "real \<Rightarrow> real \<Rightarrow> real \<Rightarrow> real \<Rightarrow> jsnum"

section \<open>The sampling audit\<close>

text \<open>
  The objects the audit pushes: a non-positive time delta event
  \<open>{index, prevIndex, delta}\<close>, where \<open>prevIndex\<close> is the value of
  \<open>previousTimestampIndex\<close> (initially \<open>null\<close>), and a joint pair
  \<open>{dtSec, ddMeters}\<close>.
\<close>

record nonPositiveTimeDeltaEvent =
  index :: nat
  prevIndex :: "nat option"
  delta :: int

record timeDistancePair =
  dtSec :: real
  ddMeters :: jsnum

text \<open>
  The variables of \<open>auditSampling\<close>, one field each, under the source's names. The
  object the function returns exposes \<open>timeDeltasMs\<close>, \<open>distanceDeltasM\<close>,
  \<open>distanceDeltasMGeometryOnly\<close>, \<open>distanceDeltasMTimeConditioned\<close>,
  \<open>timeDistancePairs\<close>, \<open>hasTimeProgression\<close>, \<open>hasValidTimestamps\<close>,
  \<open>rejectedTimestampPairsDeltaLeqZero\<close>, \<open>consecutivePointPairsConsidered\<close>,
  \<open>rejectedDistanceInvalidOrZero\<close>, the \<open>joint...\<close> counters and
  \<open>nonPositiveTimeDeltaEvents\<close>; the other fields are locals. A time value is an
  integer number of milliseconds, so a time delta is an \<open>int\<close>. The summary statistics
  (\<open>totalDeltaCount\<close>, minimum, maximum, median) are derived from \<open>timeDeltasMs\<close>
  after the loop and are not modelled.
\<close>

record audit =
  timeDeltasMs :: "int list"
  distanceDeltasMTimeConditioned :: "jsnum list"
  distanceDeltasMGeometryOnly :: "jsnum list"
  timeDistancePairs :: "timeDistancePair list"
  previousTimestampMs :: "int option"
  previousPoint :: "(real \<times> real) option"
  hasValidTimestamps :: bool
  hasTimeProgression :: bool
  timestampedPointsCount :: nat
  consecutiveTimestampPairsCount :: nat
  positiveTimeDeltasCollected :: nat
  rejectedTimestampPairsDeltaLeqZero :: nat
  nonPositiveTimeDeltaEvents :: "nonPositiveTimeDeltaEvent list"
  consecutivePointPairsConsidered :: nat
  rejectedDistanceInvalidOrZero :: nat
  previousTimestampIndex :: "nat option"
  distanceDeltasM :: "jsnum list"
  jointConsecutivePairsInspected :: nat
  jointPairsWithBothTimestamps :: nat
  jointRejectedMissingTimestamp :: nat
  jointRejectedNonPositiveDt :: nat
  jointRejectedInvalidOrZeroDistance :: nat
  jointValidPairsCollected :: nat
  prevPoint :: "(real \<times> real) option"
  prevTimestampMs :: "int option"

definition initial_audit :: audit where
  "initial_audit =
     \<lparr> timeDeltasMs = [], distanceDeltasMTimeConditioned = [],
       distanceDeltasMGeometryOnly = [], timeDistancePairs = [],
       previousTimestampMs = None, previousPoint = None,
       hasValidTimestamps = False, hasTimeProgression = False,
       timestampedPointsCount = 0, consecutiveTimestampPairsCount = 0,
       positiveTimeDeltasCollected = 0, rejectedTimestampPairsDeltaLeqZero = 0,
       nonPositiveTimeDeltaEvents = [], consecutivePointPairsConsidered = 0,
       rejectedDistanceInvalidOrZero = 0, previousTimestampIndex = None,
       distanceDeltasM = [], jointConsecutivePairsInspected = 0,
       jointPairsWithBothTimestamps = 0, jointRejectedMissingTimestamp = 0,
       jointRejectedNonPositiveDt = 0, jointRejectedInvalidOrZeroDistance = 0,
       jointValidPairsCollected = 0, prevPoint = None, prevTimestampMs = None \<rparr>"

text \<open>The test \<open>isFinite(distance) && distance > 0\<close>.\<close>

definition validDistance :: "jsnum \<Rightarrow> bool" where
  "validDistance d = (isFinite d \<and> js_gt d (Fin 0))"

text \<open>First pass: is any timestamp parseable? The loop stops at the first one.\<close>

fun presenceScan :: "date_parse \<Rightarrow> point list \<Rightarrow> bool" where
  "presenceScan P [] = False"
| "presenceScan P (pt # pts) =
     (case parseTimestamp P pt of Some t \<Rightarrow> True | None \<Rightarrow> presenceScan P pts)"

text \<open>
  The body of the main loop at index \<open>i\<close>, in the source's order: the geometry-only
  distance, then the time delta with the time-conditioned distance, then the update of
  \<open>previousPoint\<close>.
\<close>

definition geometryStep :: "distance_fn \<Rightarrow> point \<Rightarrow> audit \<Rightarrow> audit" where
  "geometryStep D pt s =
     (case previousPoint s of
        None \<Rightarrow> s
      | Some (plat, plon) \<Rightarrow>
          (let s1 = s\<lparr>consecutivePointPairsConsidered := consecutivePointPairsConsidered s + 1\<rparr>;
               distance = D plat plon (lat pt) (lon pt)
           in if validDistance distance
              then s1\<lparr>distanceDeltasMGeometryOnly := distanceDeltasMGeometryOnly s1 @ [distance]\<rparr>
              else s1\<lparr>rejectedDistanceInvalidOrZero := rejectedDistanceInvalidOrZero s1 + 1\<rparr>))"

definition timeConditionedStep :: "distance_fn \<Rightarrow> point \<Rightarrow> audit \<Rightarrow> audit" where
  "timeConditionedStep D pt s =
     (case previousPoint s of
        None \<Rightarrow> s
      | Some (plat, plon) \<Rightarrow>
          (let distance = D plat plon (lat pt) (lon pt)
           in if validDistance distance
              then s\<lparr>distanceDeltasMTimeConditioned :=
                       distanceDeltasMTimeConditioned s @ [distance]\<rparr>
              else s))"

definition timeStep :: "date_parse \<Rightarrow> distance_fn \<Rightarrow> nat \<Rightarrow> point \<Rightarrow> audit \<Rightarrow> audit" where
  "timeStep P D i pt s =
     (case parseTimestamp P pt of
        None \<Rightarrow> s
      | Some currentTimestampMs \<Rightarrow>
          (let s1 = s\<lparr>timestampedPointsCount := timestampedPointsCount s + 1\<rparr>;
               s2 = (case previousTimestampMs s1 of
                       None \<Rightarrow> s1
                     | Some previous \<Rightarrow>
                         (let s3 = s1\<lparr>consecutiveTimestampPairsCount :=
                                         consecutiveTimestampPairsCount s1 + 1\<rparr>;
                              d = currentTimestampMs - previous
                          in if 0 < d
                             then timeConditionedStep D pt
                                    (s3\<lparr>positiveTimeDeltasCollected :=
                                           positiveTimeDeltasCollected s3 + 1,
                                         timeDeltasMs := timeDeltasMs s3 @ [d],
                                         hasTimeProgression := True\<rparr>)
                             else s3\<lparr>rejectedTimestampPairsDeltaLeqZero :=
                                        rejectedTimestampPairsDeltaLeqZero s3 + 1,
                                      nonPositiveTimeDeltaEvents :=
                                        nonPositiveTimeDeltaEvents s3 @
                                        [\<lparr>index = i,
                                          prevIndex = previousTimestampIndex s3,
                                          delta = d\<rparr>]\<rparr>))
           in s2\<lparr>previousTimestampMs := Some currentTimestampMs,
                 previousTimestampIndex := Some i\<rparr>))"

definition mainStep :: "date_parse \<Rightarrow> distance_fn \<Rightarrow> nat \<Rightarrow> point \<Rightarrow> audit \<Rightarrow> audit" where
  "mainStep P D i pt s =
     (timeStep P D i pt (geometryStep D pt s))\<lparr>previousPoint := Some (lat pt, lon pt)\<rparr>"

text \<open>The loop \<open>for (let i = 0; i < points.length; i++)\<close>, from index \<open>i\<close> on.\<close>

fun mainLoop :: "date_parse \<Rightarrow> distance_fn \<Rightarrow> nat \<Rightarrow> point list \<Rightarrow> audit \<Rightarrow> audit" where
  "mainLoop P D i [] s = s"
| "mainLoop P D i (pt # pts) s = mainLoop P D (Suc i) pts (mainStep P D i pt s)"

text \<open>
  The body of the joint-pair loop. \<open>prevPoint\<close> and \<open>prevTimestampMs\<close> are written
  only when the current point has a valid timestamp. The quotient \<open>dtMs / 1000\<close> of
  the integer \<open>dtMs\<close> is carried as the exact rational: rounding it to a double
  changes neither its sign nor whether it is zero, which is all the tests read.
\<close>

definition jointStep :: "date_parse \<Rightarrow> distance_fn \<Rightarrow> point \<Rightarrow> audit \<Rightarrow> audit" where
  "jointStep P D pt s =
     (let currentTimestampMs = parseTimestamp P pt;
          s1 = (if prevPoint s \<noteq> None
                then s\<lparr>jointConsecutivePairsInspected := jointConsecutivePairsInspected s + 1\<rparr>
                else s);
          s2 = (case (currentTimestampMs, prevTimestampMs s1, prevPoint s1) of
                  (Some cur, Some prev, Some (plat, plon)) \<Rightarrow>
                    (let s3 = s1\<lparr>jointPairsWithBothTimestamps :=
                                    jointPairsWithBothTimestamps s1 + 1\<rparr>;
                         dtMs = cur - prev;
                         dt = real_of_int dtMs / 1000;
                         dd = D plat plon (lat pt) (lon pt)
                     in if 0 < dt \<and> validDistance dd
                        then s3\<lparr>jointValidPairsCollected := jointValidPairsCollected s3 + 1,
                                timeDistancePairs :=
                                  timeDistancePairs s3 @ [\<lparr>dtSec = dt, ddMeters = dd\<rparr>]\<rparr>
                        else (let s4 = (if dt \<le> 0
                                        then s3\<lparr>jointRejectedNonPositiveDt :=
                                                  jointRejectedNonPositiveDt s3 + 1\<rparr>
                                        else s3)
                              in if \<not> isFinite dd \<or> js_le dd (Fin 0)
                                 then s4\<lparr>jointRejectedInvalidOrZeroDistance :=
                                           jointRejectedInvalidOrZeroDistance s4 + 1\<rparr>
                                 else s4))
                | _ \<Rightarrow>
                    (if prevPoint s1 \<noteq> None
                     then s1\<lparr>jointRejectedMissingTimestamp :=
                               jointRejectedMissingTimestamp s1 + 1\<rparr>
                     else s1))
      in case currentTimestampMs of
           Some cur \<Rightarrow> s2\<lparr>prevPoint := Some (lat pt, lon pt), prevTimestampMs := Some cur\<rparr>
         | None \<Rightarrow> s2)"

fun jointLoop :: "date_parse \<Rightarrow> distance_fn \<Rightarrow> point list \<Rightarrow> audit \<Rightarrow> audit" where
  "jointLoop P D [] s = s"
| "jointLoop P D (pt # pts) s = jointLoop P D pts (jointStep P D pt s)"

text \<open>
  The primary distance series: time-conditioned when progression exists, else
  geometry-only.
\<close>

definition primarySeries :: "audit \<Rightarrow> audit" where
  "primarySeries s =
     s\<lparr>distanceDeltasM :=
         (if hasTimeProgression s then distanceDeltasMTimeConditioned s
          else distanceDeltasMGeometryOnly s)\<rparr>"

text \<open>The joint-pair pass runs only under \<open>if (hasTimeProgression)\<close>.\<close>

definition jointPass :: "date_parse \<Rightarrow> distance_fn \<Rightarrow> point list \<Rightarrow> audit \<Rightarrow> audit" where
  "jointPass P D points s = (if hasTimeProgression s then jointLoop P D points s else s)"

text \<open>
  \<open>auditSampling\<close>: the presence scan, the main loop, the choice of the primary
  distance series, and the joint-pair pass.
\<close>

definition auditSampling :: "date_parse \<Rightarrow> distance_fn \<Rightarrow> point list \<Rightarrow> audit" where
  "auditSampling P D points =
     jointPass P D points
       (primarySeries
         (mainLoop P D 0 points
           (initial_audit\<lparr>hasValidTimestamps := presenceScan P points\<rparr>)))"

text \<open>The state after the main loop, as \<open>auditSampling\<close> runs it.\<close>

definition afterMainLoop :: "date_parse \<Rightarrow> distance_fn \<Rightarrow> point list \<Rightarrow> audit" where
  "afterMainLoop P D points =
     mainLoop P D 0 points (initial_audit\<lparr>hasValidTimestamps := presenceScan P points\<rparr>)"

text \<open>The state of the main loop after its first \<open>k\<close> iterations.\<close>

definition stateAfter :: "date_parse \<Rightarrow> distance_fn \<Rightarrow> point list \<Rightarrow> nat \<Rightarrow> audit" where
  "stateAfter P D points k =
     mainLoop P D 0 (take k points)
       (initial_audit\<lparr>hasValidTimestamps := presenceScan P points\<rparr>)"

text \<open>
  The pairing convention in the words of the specification, for comparison with the
  joint-pair loop: a pair for a point only when both it and the immediately preceding
  point of the given sequence carry valid timestamps, kept when \<open>dtSec > 0\<close> and the
  distance is finite and positive.
\<close>

fun spec_jointPairs :: "date_parse \<Rightarrow> distance_fn \<Rightarrow> point list \<Rightarrow> timeDistancePair list" where
  "spec_jointPairs P D (p # q # rest) =
     (case (parseTimestamp P p, parseTimestamp P q) of
        (Some tp, Some tq) \<Rightarrow>
          (let dt = real_of_int (tq - tp) / 1000;
               dd = D (lat p) (lon p) (lat q) (lon q)
           in if 0 < dt \<and> validDistance dd then [\<lparr>dtSec = dt, ddMeters = dd\<rparr>] else [])
      | _ \<Rightarrow> []) @ spec_jointPairs P D (q # rest)"
| "spec_jointPairs P D [p] = []"
| "spec_jointPairs P D [] = []"

text \<open>The points that carry a valid timestamp, in order.\<close>

definition timestampedPoints :: "date_parse \<Rightarrow> point list \<Rightarrow> point list" where
  "timestampedPoints P points = filter (\<lambda>p. parseTimestamp P p \<noteq> None) points"

text \<open>
  The candidates of the three delta series, read off the input sequence rather than off
  the loop, for comparison with what the loop stores and counts. The time-delta
  candidates are the differences of neighbours in the sequence of valid timestamps. The
  distance candidates are the distances of neighbouring points. A point shows time
  progress when it has a valid timestamp, some earlier point has one, and its timestamp
  is later than the latest earlier one; the time-conditioned candidates are the
  distances from the preceding point to each such point.
\<close>

definition timestampsOf :: "date_parse \<Rightarrow> point list \<Rightarrow> int list" where
  "timestampsOf P points = List.map_filter (parseTimestamp P) points"

definition timeDeltaCandidates :: "date_parse \<Rightarrow> point list \<Rightarrow> int list" where
  "timeDeltaCandidates P points =
     map (\<lambda>(previous, current). current - previous)
       (zip (timestampsOf P points) (tl (timestampsOf P points)))"

definition pointDistance :: "distance_fn \<Rightarrow> point \<Rightarrow> point \<Rightarrow> jsnum" where
  "pointDistance D p q = D (lat p) (lon p) (lat q) (lon q)"

definition distanceCandidates :: "distance_fn \<Rightarrow> point list \<Rightarrow> jsnum list" where
  "distanceCandidates D points =
     map (\<lambda>(p, q). pointDistance D p q) (zip points (tl points))"

definition lastTimestamp :: "date_parse \<Rightarrow> point list \<Rightarrow> int option" where
  "lastTimestamp P points =
     (if timestampsOf P points = [] then None else Some (last (timestampsOf P points)))"

definition progressAt :: "date_parse \<Rightarrow> point list \<Rightarrow> nat \<Rightarrow> bool" where
  "progressAt P points i =
     (case (lastTimestamp P (take i points), parseTimestamp P (points ! i)) of
        (Some previous, Some current) \<Rightarrow> previous < current
      | _ \<Rightarrow> False)"

definition timeConditionedCandidates :: "date_parse \<Rightarrow> distance_fn \<Rightarrow> point list \<Rightarrow> jsnum list" where
  "timeConditionedCandidates P D points =
     map (\<lambda>i. pointDistance D (points ! (i - 1)) (points ! i))
       (filter (progressAt P points) [1..<length points])"

section \<open>The density estimator\<close>

text \<open>
  A curve point \<open>{xLog, xLinear, y}\<close>. \<open>numPoints\<close> is the grid resolution, a
  natural number. \<open>computeKDE\<close> and \<open>detectPeaks\<close> contain no \<open>throw\<close>: on
  an array of numbers every path returns an array, so the models are total functions
  into lists.
\<close>

record kdePoint =
  xLog :: jsnum
  xLinear :: jsnum
  y :: jsnum

text \<open>The filter \<open>d > 0 && isFinite(d)\<close>.\<close>

definition validDatum :: "jsnum \<Rightarrow> bool" where
  "validDatum d = (js_gt d (Fin 0) \<and> isFinite d)"

text \<open>
  The inner loop over the data: \<open>u = (xLog - validDataLog[j]) / h\<close>,
  \<open>density += Math.exp(-0.5 * u * u)\<close>, starting from \<open>0\<close>.
\<close>

definition kernelTerm :: "mathEngine \<Rightarrow> jsnum \<Rightarrow> jsnum \<Rightarrow> jsnum \<Rightarrow> jsnum" where
  "kernelTerm E x h d =
     (let u = js_div (js_sub x d) h
      in Math_exp E (js_mul (js_mul (Fin (- 0.5)) u) u))"

definition kernelSum :: "mathEngine \<Rightarrow> jsnum \<Rightarrow> jsnum \<Rightarrow> jsnum list \<Rightarrow> jsnum" where
  "kernelSum E x h validDataLog =
     foldl (\<lambda>dens d. js_add dens (kernelTerm E x h d)) (Fin 0) validDataLog"

text \<open>
  The grid position \<open>xMinLog + (xMaxLog - xMinLog) * (i / (numPoints - 1))\<close>, with the
  four roundings of the source: the difference of the bounds, the quotient, the product
  and the sum.
\<close>

definition gridX :: "jsnum \<Rightarrow> jsnum \<Rightarrow> nat \<Rightarrow> nat \<Rightarrow> jsnum" where
  "gridX xMinLog xMaxLog numPoints i =
     js_add xMinLog
       (js_mul (js_sub xMaxLog xMinLog)
          (js_div (Fin (real i)) (js_sub (Fin (real numPoints)) (Fin 1))))"

text \<open>The body of the outer loop at grid index \<open>i\<close>.\<close>

definition gridPoint ::
  "mathEngine \<Rightarrow> jsnum \<Rightarrow> jsnum \<Rightarrow> nat \<Rightarrow> jsnum \<Rightarrow> jsnum \<Rightarrow> jsnum list \<Rightarrow> nat \<Rightarrow> kdePoint" where
  "gridPoint E xMinLog xMaxLog numPoints h normalization validDataLog i =
     (let x = gridX xMinLog xMaxLog numPoints i;
          dens = js_mul (kernelSum E x h validDataLog) normalization
      in \<lparr>xLog = x, xLinear = Math_exp E x, y = dens\<rparr>)"

text \<open>The loop \<open>for (let i = 0; i < numPoints; i++)\<close>, pushing \<open>g i\<close>.\<close>

function kdeLoop :: "(nat \<Rightarrow> kdePoint) \<Rightarrow> nat \<Rightarrow> nat \<Rightarrow> kdePoint list \<Rightarrow> kdePoint list" where
  "kdeLoop g numPoints i kdePoints =
     (if i < numPoints then kdeLoop g numPoints (Suc i) (kdePoints @ [g i]) else kdePoints)"
  by pat_completeness auto
termination
  by (relation "measure (\<lambda>(g, numPoints, i, kdePoints). numPoints - i)") auto

text \<open>The normalisation constant \<open>1 / (n * h * Math.sqrt(2 * Math.PI))\<close>.\<close>

definition normalization :: "mathEngine \<Rightarrow> nat \<Rightarrow> jsnum \<Rightarrow> jsnum" where
  "normalization E n h =
     js_div (Fin 1)
       (js_mul (js_mul (Fin (real n)) h) (Math_sqrt E (js_mul (Fin 2) Math_PI)))"

definition computeKDE :: "mathEngine \<Rightarrow> jsnum list \<Rightarrow> jsnum \<Rightarrow> nat \<Rightarrow> kdePoint list" where
  "computeKDE E dat bandwidth numPoints =
     (let validData = filter validDatum dat
      in if length validData = 0 then []
         else
           (let validDataLog = map (Math_log E) validData;
                minLog = Math_min validDataLog;
                maxLog = Math_max validDataLog;
                n = length validDataLog;
                h = bandwidth
            in kdeLoop (gridPoint E minLog maxLog numPoints h (normalization E n h) validDataLog)
                 numPoints 0 []))"

text \<open>
  The bounds of the grid as \<open>computeKDE\<close> computes them: \<open>Math.min\<close> and
  \<open>Math.max\<close> of \<open>Math.log\<close> over the data that pass the filter.
\<close>

definition xMinLog :: "mathEngine \<Rightarrow> jsnum list \<Rightarrow> jsnum" where
  "xMinLog E dat = Math_min (map (Math_log E) (filter validDatum dat))"

definition xMaxLog :: "mathEngine \<Rightarrow> jsnum list \<Rightarrow> jsnum" where
  "xMaxLog E dat = Math_max (map (Math_log E) (filter validDatum dat))"

text \<open>
  The engine is well behaved on a series when \<open>Math.log\<close> of every value that passes
  the filter is a finite double of magnitude at most \<open>1024\<close>. The logarithm of a
  positive double lies between \<open>-745\<close> and \<open>710\<close>, so this asks of the engine
  only that its result is a double near the logarithm.
\<close>

definition finiteLogs :: "mathEngine \<Rightarrow> jsnum list \<Rightarrow> bool" where
  "finiteLogs E dat \<longleftrightarrow>
     (\<forall>d\<in>set (filter validDatum dat).
        \<exists>v. Math_log E d = Fin v \<and> rnd v = Fin v \<and> \<bar>v\<bar> \<le> 1024)"

text \<open>The grid position as a real, when no step of it overflows.\<close>

definition gridReal :: "real \<Rightarrow> real \<Rightarrow> nat \<Rightarrow> nat \<Rightarrow> real" where
  "gridReal lo hi m i =
     roundReal (lo + roundReal (roundReal (hi - lo) * roundReal (real i / real (m - 1))))"

text \<open>The real a finite number denotes.\<close>

fun finValue :: "jsnum \<Rightarrow> real" where
  "finValue (Fin v) = v"
| "finValue NaN = 0"
| "finValue PInf = 0"
| "finValue NInf = 0"

text \<open>
  \<open>detectPeaks\<close>: the loop \<open>for (let i = 1; i < kdePoints.length - 1; i++)\<close>,
  entered only when the curve has at least three points, so every index it reads is in
  range. The pushed object is a copy of the three fields of \<open>curr\<close>.
\<close>

function peaksLoop :: "kdePoint list \<Rightarrow> nat \<Rightarrow> kdePoint list \<Rightarrow> kdePoint list" where
  "peaksLoop kdePoints i peaks =
     (if i < length kdePoints - 1
      then (let prev = kdePoints ! (i - 1);
                curr = kdePoints ! i;
                nxt = kdePoints ! (i + 1)
            in peaksLoop kdePoints (Suc i)
                 (if js_gt (y curr) (y prev) \<and> js_gt (y curr) (y nxt)
                  then peaks @ [\<lparr>xLog = xLog curr, xLinear = xLinear curr, y = y curr\<rparr>]
                  else peaks))
      else peaks)"
  by pat_completeness auto
termination
  by (relation "measure (\<lambda>(kdePoints, i, peaks). length kdePoints - 1 - i)") auto

definition detectPeaks :: "kdePoint list \<Rightarrow> kdePoint list" where
  "detectPeaks kdePoints = (if length kdePoints < 3 then [] else peaksLoop kdePoints 1 [])"

text \<open>The test of a strict local maximum at an interior index.\<close>

definition isPeakAt :: "kdePoint list \<Rightarrow> nat \<Rightarrow> bool" where
  "isPeakAt kdePoints i =
     (js_gt (y (kdePoints ! i)) (y (kdePoints ! (i - 1))) \<and>
      js_gt (y (kdePoints ! i)) (y (kdePoints ! (i + 1))))"

text \<open>
  The equations of the two counting loops are unfolded by hand, one iteration at a time.
\<close>

declare kdeLoop.simps [simp del]
declare peaksLoop.simps [simp del]

section \<open>Concrete inputs\<close>

text \<open>
  A fragment of \<open>Date.parse\<close>: the time values of three ISO 8601 strings; every other
  string is unparseable here.
\<close>

definition sampleParse :: date_parse where
  "sampleParse =
     map_of [(''2024-01-01T00:00:00Z'', 1704067200000),
             (''2024-01-01T00:00:01Z'', 1704067201000),
             (''2024-01-01T00:00:05Z'', 1704067205000)]"

text \<open>
  Five points on the equator, at longitude \<open>0\<close> or \<open>180\<close>: the third has no
  timestamp, the second and fourth share one.
\<close>

definition sampleTrack :: "point list" where
  "sampleTrack =
     [\<lparr>lat = 0, lon = 0, timeRaw = Some ''2024-01-01T00:00:00Z''\<rparr>,
      \<lparr>lat = 0, lon = 180, timeRaw = Some ''2024-01-01T00:00:01Z''\<rparr>,
      \<lparr>lat = 0, lon = 180, timeRaw = None\<rparr>,
      \<lparr>lat = 0, lon = 180, timeRaw = Some ''2024-01-01T00:00:01Z''\<rparr>,
      \<lparr>lat = 0, lon = 0, timeRaw = Some ''2024-01-01T00:00:05Z''\<rparr>]"

text \<open>Two points with the same timestamp: timestamps present, no progression.\<close>

definition stalledTrack :: "point list" where
  "stalledTrack =
     [\<lparr>lat = 0, lon = 0, timeRaw = Some ''2024-01-01T00:00:00Z''\<rparr>,
      \<lparr>lat = 0, lon = 180, timeRaw = Some ''2024-01-01T00:00:00Z''\<rparr>]"

text \<open>Two timestamped points with an untimestamped point between them.\<close>

definition gapTrack :: "point list" where
  "gapTrack =
     [\<lparr>lat = 0, lon = 0, timeRaw = Some ''2024-01-01T00:00:00Z''\<rparr>,
      \<lparr>lat = 0, lon = 0, timeRaw = None\<rparr>,
      \<lparr>lat = 0, lon = 180, timeRaw = Some ''2024-01-01T00:00:01Z''\<rparr>]"


text \<open>A curve with the density values \<open>1, 3, 1, 2, 1\<close>.\<close>

definition sampleCurve :: "kdePoint list" where
  "sampleCurve =
     [\<lparr>xLog = Fin 0, xLinear = Fin 1, y = Fin 1\<rparr>,
      \<lparr>xLog = Fin 1, xLinear = Fin (exp 1), y = Fin 3\<rparr>,
      \<lparr>xLog = Fin 2, xLinear = Fin (exp 2), y = Fin 1\<rparr>,
      \<lparr>xLog = Fin 3, xLinear = Fin (exp 3), y = Fin 2\<rparr>,
      \<lparr>xLog = Fin 4, xLinear = Fin (exp 4), y = Fin 1\<rparr>]"

text \<open>
  An engine for the concrete inputs: \<open>Math.log\<close> at \<open>2\<close> and at the doubles
  nearest to \<open>0.1\<close> and \<open>21.9\<close> as double-precision libraries return it
  (\<open>0.6931471805599453\<close>, \<open>-2.3025850929940455\<close>, \<open>3.086486636822455\<close>),
  and the correctly rounded value everywhere else.
\<close>

definition sampleEngine :: mathEngine where
  "sampleEngine =
     \<lparr>engineLog = (\<lambda>a.
        if a = 2 then Fin (dbl 6243314768165359 (- 53))
        else if a = dbl 3602879701896397 (- 55) then Fin (dbl (- 5184960683398421) (- 51))
        else if a = dbl 3082150994981683 (- 47) then Fin (dbl 1737537508434703 (- 49))
        else rnd (ln a)),
      engineExp = (\<lambda>a. rnd (exp a)),
      engineSqrt = (\<lambda>a. rnd (sqrt a))\<rparr>"

text \<open>The series \<open>[0.1, 21.9]\<close>, as the doubles these literals denote.\<close>

definition gridData :: "jsnum list" where
  "gridData = [Fin (dbl 3602879701896397 (- 55)), Fin (dbl 3082150994981683 (- 47))]"

text \<open>The series \<open>[1, 2]\<close>.\<close>

definition octaveData :: "jsnum list" where
  "octaveData = [Fin 1, Fin 2]"

section \<open>Evaluation on the concrete inputs\<close>

lemmas audit_defs =
  auditSampling_def jointPass_def primarySeries_def mainStep_def timeStep_def
  timeConditionedStep_def geometryStep_def jointStep_def parseTimestamp_def
  validDistance_def js_gt_def initial_audit_def Let_def

lemma haversineDistance_same: "haversineDistance la lo la lo = Fin 0"
  by (simp add: haversineDistance_def atan2_def)

lemma haversineDistance_antipodal:
  "haversineDistance 0 0 0 180 = Fin (6371000 * pi)"
  "haversineDistance 0 180 0 0 = Fin (6371000 * pi)"
  by (simp_all add: haversineDistance_def atan2_def)

lemmas sample_defs =
  sampleParse_def sampleTrack_def stalledTrack_def gapTrack_def
  haversineDistance_same haversineDistance_antipodal

lemma auditSampling_sampleTrack:
  "auditSampling sampleParse haversineDistance sampleTrack =
     \<lparr> timeDeltasMs = [1000, 4000],
       distanceDeltasMTimeConditioned = [Fin (6371000 * pi), Fin (6371000 * pi)],
       distanceDeltasMGeometryOnly = [Fin (6371000 * pi), Fin (6371000 * pi)],
       timeDistancePairs =
         [\<lparr>dtSec = 1, ddMeters = Fin (6371000 * pi)\<rparr>,
          \<lparr>dtSec = 4, ddMeters = Fin (6371000 * pi)\<rparr>],
       previousTimestampMs = Some 1704067205000, previousPoint = Some (0, 0),
       hasValidTimestamps = True, hasTimeProgression = True,
       timestampedPointsCount = 4, consecutiveTimestampPairsCount = 3,
       positiveTimeDeltasCollected = 2, rejectedTimestampPairsDeltaLeqZero = 1,
       nonPositiveTimeDeltaEvents = [\<lparr>index = 3, prevIndex = Some 1, delta = 0\<rparr>],
       consecutivePointPairsConsidered = 4, rejectedDistanceInvalidOrZero = 2,
       previousTimestampIndex = Some 4,
       distanceDeltasM = [Fin (6371000 * pi), Fin (6371000 * pi)],
       jointConsecutivePairsInspected = 4, jointPairsWithBothTimestamps = 3,
       jointRejectedMissingTimestamp = 1, jointRejectedNonPositiveDt = 1,
       jointRejectedInvalidOrZeroDistance = 1, jointValidPairsCollected = 2,
       prevPoint = Some (0, 0), prevTimestampMs = Some 1704067205000 \<rparr>"
  by (simp add: audit_defs sample_defs)

lemma auditSampling_stalledTrack:
  "auditSampling sampleParse haversineDistance stalledTrack =
     \<lparr> timeDeltasMs = [], distanceDeltasMTimeConditioned = [],
       distanceDeltasMGeometryOnly = [Fin (6371000 * pi)], timeDistancePairs = [],
       previousTimestampMs = Some 1704067200000, previousPoint = Some (0, 180),
       hasValidTimestamps = True, hasTimeProgression = False,
       timestampedPointsCount = 2, consecutiveTimestampPairsCount = 1,
       positiveTimeDeltasCollected = 0, rejectedTimestampPairsDeltaLeqZero = 1,
       nonPositiveTimeDeltaEvents = [\<lparr>index = 1, prevIndex = Some 0, delta = 0\<rparr>],
       consecutivePointPairsConsidered = 1, rejectedDistanceInvalidOrZero = 0,
       previousTimestampIndex = Some 1, distanceDeltasM = [Fin (6371000 * pi)],
       jointConsecutivePairsInspected = 0, jointPairsWithBothTimestamps = 0,
       jointRejectedMissingTimestamp = 0, jointRejectedNonPositiveDt = 0,
       jointRejectedInvalidOrZeroDistance = 0, jointValidPairsCollected = 0,
       prevPoint = None, prevTimestampMs = None \<rparr>"
  by (simp add: audit_defs sample_defs)

lemma auditSampling_gapTrack:
  "auditSampling sampleParse haversineDistance gapTrack =
     \<lparr> timeDeltasMs = [1000],
       distanceDeltasMTimeConditioned = [Fin (6371000 * pi)],
       distanceDeltasMGeometryOnly = [Fin (6371000 * pi)],
       timeDistancePairs = [\<lparr>dtSec = 1, ddMeters = Fin (6371000 * pi)\<rparr>],
       previousTimestampMs = Some 1704067201000, previousPoint = Some (0, 180),
       hasValidTimestamps = True, hasTimeProgression = True,
       timestampedPointsCount = 2, consecutiveTimestampPairsCount = 1,
       positiveTimeDeltasCollected = 1, rejectedTimestampPairsDeltaLeqZero = 0,
       nonPositiveTimeDeltaEvents = [],
       consecutivePointPairsConsidered = 2, rejectedDistanceInvalidOrZero = 1,
       previousTimestampIndex = Some 2, distanceDeltasM = [Fin (6371000 * pi)],
       jointConsecutivePairsInspected = 2, jointPairsWithBothTimestamps = 1,
       jointRejectedMissingTimestamp = 1, jointRejectedNonPositiveDt = 0,
       jointRejectedInvalidOrZeroDistance = 0, jointValidPairsCollected = 1,
       prevPoint = Some (0, 180), prevTimestampMs = Some 1704067201000 \<rparr>"
  by (simp add: audit_defs sample_defs)

lemma length_sampleTrack: "length sampleTrack = 5"
  by (simp add: sampleTrack_def)

section \<open>Loops and the fields they write\<close>

lemmas mainStep_defs =
  mainStep_def timeStep_def timeConditionedStep_def geometryStep_def Let_def

lemma mainLoop_inv:
  assumes "\<And>i pt s. I s \<Longrightarrow> I (mainStep P D i pt s)" and "I s"
  shows "I (mainLoop P D i pts s)"
  using assms(2) by (induction pts arbitrary: i s) (auto intro: assms(1))

lemma mainLoop_append:
  "mainLoop P D i (xs @ ys) s = mainLoop P D (i + length xs) ys (mainLoop P D i xs s)"
  by (induction xs arbitrary: i s) simp_all

text \<open>The joint-pair loop writes only its own counters, its two locals and the pairs.\<close>

lemma jointStep_frame:
  "timeDeltasMs (jointStep P D pt s) = timeDeltasMs s"
  "hasTimeProgression (jointStep P D pt s) = hasTimeProgression s"
  "distanceDeltasM (jointStep P D pt s) = distanceDeltasM s"
  "distanceDeltasMTimeConditioned (jointStep P D pt s) = distanceDeltasMTimeConditioned s"
  "distanceDeltasMGeometryOnly (jointStep P D pt s) = distanceDeltasMGeometryOnly s"
  "rejectedTimestampPairsDeltaLeqZero (jointStep P D pt s) =
     rejectedTimestampPairsDeltaLeqZero s"
  "nonPositiveTimeDeltaEvents (jointStep P D pt s) = nonPositiveTimeDeltaEvents s"
  "consecutivePointPairsConsidered (jointStep P D pt s) = consecutivePointPairsConsidered s"
  "rejectedDistanceInvalidOrZero (jointStep P D pt s) = rejectedDistanceInvalidOrZero s"
  "consecutiveTimestampPairsCount (jointStep P D pt s) = consecutiveTimestampPairsCount s"
  by (simp_all add: jointStep_def Let_def split: option.splits prod.splits)

lemma jointLoop_frame:
  "timeDeltasMs (jointLoop P D pts s) = timeDeltasMs s"
  "hasTimeProgression (jointLoop P D pts s) = hasTimeProgression s"
  "distanceDeltasM (jointLoop P D pts s) = distanceDeltasM s"
  "distanceDeltasMTimeConditioned (jointLoop P D pts s) = distanceDeltasMTimeConditioned s"
  "distanceDeltasMGeometryOnly (jointLoop P D pts s) = distanceDeltasMGeometryOnly s"
  "rejectedTimestampPairsDeltaLeqZero (jointLoop P D pts s) =
     rejectedTimestampPairsDeltaLeqZero s"
  "nonPositiveTimeDeltaEvents (jointLoop P D pts s) = nonPositiveTimeDeltaEvents s"
  "consecutivePointPairsConsidered (jointLoop P D pts s) = consecutivePointPairsConsidered s"
  "rejectedDistanceInvalidOrZero (jointLoop P D pts s) = rejectedDistanceInvalidOrZero s"
  "consecutiveTimestampPairsCount (jointLoop P D pts s) = consecutiveTimestampPairsCount s"
  by (induction pts arbitrary: s) (simp_all add: jointStep_frame)

text \<open>So these fields of the result are the ones the main loop left.\<close>

lemma auditSampling_fields:
  "timeDeltasMs (auditSampling P D pts) = timeDeltasMs (afterMainLoop P D pts)"
  "hasTimeProgression (auditSampling P D pts) = hasTimeProgression (afterMainLoop P D pts)"
  "distanceDeltasMTimeConditioned (auditSampling P D pts) =
     distanceDeltasMTimeConditioned (afterMainLoop P D pts)"
  "distanceDeltasMGeometryOnly (auditSampling P D pts) =
     distanceDeltasMGeometryOnly (afterMainLoop P D pts)"
  "rejectedTimestampPairsDeltaLeqZero (auditSampling P D pts) =
     rejectedTimestampPairsDeltaLeqZero (afterMainLoop P D pts)"
  "nonPositiveTimeDeltaEvents (auditSampling P D pts) =
     nonPositiveTimeDeltaEvents (afterMainLoop P D pts)"
  "consecutivePointPairsConsidered (auditSampling P D pts) =
     consecutivePointPairsConsidered (afterMainLoop P D pts)"
  "rejectedDistanceInvalidOrZero (auditSampling P D pts) =
     rejectedDistanceInvalidOrZero (afterMainLoop P D pts)"
  "consecutiveTimestampPairsCount (auditSampling P D pts) =
     consecutiveTimestampPairsCount (afterMainLoop P D pts)"
  by (simp_all add: auditSampling_def afterMainLoop_def jointPass_def primarySeries_def
      jointLoop_frame)

lemma auditSampling_primary:
  "distanceDeltasM (auditSampling P D pts) =
     (if hasTimeProgression (afterMainLoop P D pts)
      then distanceDeltasMTimeConditioned (afterMainLoop P D pts)
      else distanceDeltasMGeometryOnly (afterMainLoop P D pts))"
  by (simp add: auditSampling_def afterMainLoop_def jointPass_def primarySeries_def
      jointLoop_frame)

section \<open>Time progression and the primary series\<close>

lemma mainStep_progression:
  "hasTimeProgression s = (timeDeltasMs s \<noteq> []) \<Longrightarrow>
   hasTimeProgression (mainStep P D i pt s) = (timeDeltasMs (mainStep P D i pt s) \<noteq> [])"
  by (simp add: mainStep_defs split: option.splits prod.splits)

lemma afterMainLoop_progression:
  "hasTimeProgression (afterMainLoop P D pts) = (timeDeltasMs (afterMainLoop P D pts) \<noteq> [])"
  unfolding afterMainLoop_def
  by (rule mainLoop_inv[where I = "\<lambda>s. hasTimeProgression s = (timeDeltasMs s \<noteq> [])"])
     (simp_all add: mainStep_progression initial_audit_def)

text \<open>
  C3. For every point sequence, the result of \<open>auditSampling\<close> has
  \<open>hasTimeProgression\<close> true if and only if its time-delta series \<open>timeDeltasMs\<close>
  is non-empty.
\<close>

theorem hasTimeProgression_iff_timeDeltas:
  "hasTimeProgression (auditSampling P D pts) = (timeDeltasMs (auditSampling P D pts) \<noteq> [])"
  by (simp add: auditSampling_fields afterMainLoop_progression)

theorem hasTimeProgression_iff_timeDeltas_witness:
  "hasTimeProgression (auditSampling sampleParse haversineDistance sampleTrack) \<and>
   timeDeltasMs (auditSampling sampleParse haversineDistance sampleTrack) = [1000, 4000] \<and>
   \<not> hasTimeProgression (auditSampling sampleParse haversineDistance stalledTrack) \<and>
   timeDeltasMs (auditSampling sampleParse haversineDistance stalledTrack) = []"
  using hasTimeProgression_iff_timeDeltas [of sampleParse haversineDistance sampleTrack]
    hasTimeProgression_iff_timeDeltas [of sampleParse haversineDistance stalledTrack]
  by (simp add: auditSampling_sampleTrack auditSampling_stalledTrack)

text \<open>
  C4. For every point sequence, the primary distance series \<open>distanceDeltasM\<close> of the
  result equals the time-conditioned series when \<open>hasTimeProgression\<close> is true and the
  geometry-only series when it is false.
\<close>

theorem primary_series_choice:
  "distanceDeltasM (auditSampling P D pts) =
     (if hasTimeProgression (auditSampling P D pts)
      then distanceDeltasMTimeConditioned (auditSampling P D pts)
      else distanceDeltasMGeometryOnly (auditSampling P D pts))"
  by (simp add: auditSampling_fields auditSampling_primary)

theorem primary_series_choice_witness:
  "hasTimeProgression (auditSampling sampleParse haversineDistance sampleTrack) \<and>
   distanceDeltasM (auditSampling sampleParse haversineDistance sampleTrack) =
     distanceDeltasMTimeConditioned (auditSampling sampleParse haversineDistance sampleTrack) \<and>
   \<not> hasTimeProgression (auditSampling sampleParse haversineDistance stalledTrack) \<and>
   distanceDeltasM (auditSampling sampleParse haversineDistance stalledTrack) =
     distanceDeltasMGeometryOnly (auditSampling sampleParse haversineDistance stalledTrack) \<and>
   distanceDeltasMGeometryOnly (auditSampling sampleParse haversineDistance stalledTrack) \<noteq>
     distanceDeltasMTimeConditioned (auditSampling sampleParse haversineDistance stalledTrack)"
  using primary_series_choice [of sampleParse haversineDistance sampleTrack]
    primary_series_choice [of sampleParse haversineDistance stalledTrack]
  by (simp add: auditSampling_sampleTrack auditSampling_stalledTrack)

section \<open>Consecutive pairs and the geometry-only series\<close>

lemma mainStep_previousPoint: "previousPoint (mainStep P D i pt s) = Some (lat pt, lon pt)"
  by (simp add: mainStep_def)

lemma mainStep_considered:
  "consecutivePointPairsConsidered (mainStep P D i pt s) =
     (if previousPoint s = None then consecutivePointPairsConsidered s
      else consecutivePointPairsConsidered s + 1)"
  by (simp add: mainStep_defs split: option.splits prod.splits)

lemma mainLoop_considered:
  "previousPoint s \<noteq> None \<Longrightarrow>
   consecutivePointPairsConsidered (mainLoop P D i pts s) =
     consecutivePointPairsConsidered s + length pts"
  by (induction pts arbitrary: i s) (simp_all add: mainStep_considered mainStep_previousPoint)

lemma afterMainLoop_considered:
  "consecutivePointPairsConsidered (afterMainLoop P D pts) = length pts - 1"
proof (cases pts)
  case Nil
  then show ?thesis by (simp add: afterMainLoop_def initial_audit_def)
next
  case (Cons pt rest)
  then show ?thesis
    by (simp add: afterMainLoop_def mainLoop_considered mainStep_previousPoint
        mainStep_considered initial_audit_def)
qed

lemma mainStep_geometry_count:
  "consecutivePointPairsConsidered s =
     length (distanceDeltasMGeometryOnly s) + rejectedDistanceInvalidOrZero s \<Longrightarrow>
   consecutivePointPairsConsidered (mainStep P D i pt s) =
     length (distanceDeltasMGeometryOnly (mainStep P D i pt s)) +
     rejectedDistanceInvalidOrZero (mainStep P D i pt s)"
  by (simp add: mainStep_defs split: option.splits prod.splits)

lemma afterMainLoop_geometry_count:
  "consecutivePointPairsConsidered (afterMainLoop P D pts) =
     length (distanceDeltasMGeometryOnly (afterMainLoop P D pts)) +
     rejectedDistanceInvalidOrZero (afterMainLoop P D pts)"
  unfolding afterMainLoop_def
  by (rule mainLoop_inv[where I = "\<lambda>s. consecutivePointPairsConsidered s =
       length (distanceDeltasMGeometryOnly s) + rejectedDistanceInvalidOrZero s"])
     (simp_all add: mainStep_geometry_count initial_audit_def)

text \<open>
  C9. For every sequence of \<open>n\<close> points, \<open>consecutivePointPairsConsidered\<close> is
  \<open>max(0, n - 1)\<close>, and the length of the geometry-only series plus
  \<open>rejectedDistanceInvalidOrZero\<close> equals it: every consecutive pair is either stored
  or counted as rejected.
\<close>

theorem geometry_pairs_partition:
  "int (consecutivePointPairsConsidered (auditSampling P D pts)) =
     max 0 (int (length pts) - 1) \<and>
   length (distanceDeltasMGeometryOnly (auditSampling P D pts)) +
     rejectedDistanceInvalidOrZero (auditSampling P D pts) =
   consecutivePointPairsConsidered (auditSampling P D pts)"
proof -
  have "int (length pts - 1) = max 0 (int (length pts) - 1)"
    by (cases pts) simp_all
  then show ?thesis
    using afterMainLoop_geometry_count [of P D pts]
    by (simp add: auditSampling_fields afterMainLoop_considered)
qed

theorem geometry_pairs_partition_witness:
  "length sampleTrack = 5 \<and>
   consecutivePointPairsConsidered (auditSampling sampleParse haversineDistance sampleTrack) = 4 \<and>
   length (distanceDeltasMGeometryOnly
             (auditSampling sampleParse haversineDistance sampleTrack)) = 2 \<and>
   rejectedDistanceInvalidOrZero (auditSampling sampleParse haversineDistance sampleTrack) = 2 \<and>
   consecutivePointPairsConsidered (auditSampling sampleParse haversineDistance []) = 0"
  using geometry_pairs_partition [of sampleParse haversineDistance sampleTrack]
    geometry_pairs_partition [of sampleParse haversineDistance "[]"]
  by (simp add: auditSampling_sampleTrack length_sampleTrack)

section \<open>Stored values are positive and finite, rejected ones are counted\<close>


lemma mainStep_timeDeltas_pos:
  "\<forall>d\<in>set (timeDeltasMs s). 0 < d \<Longrightarrow> \<forall>d\<in>set (timeDeltasMs (mainStep P D i pt s)). 0 < d"
  by (auto simp: mainStep_defs split: option.splits prod.splits)



lemma afterMainLoop_timeDeltas_pos: "\<forall>d\<in>set (timeDeltasMs (afterMainLoop P D pts)). 0 < d"
  unfolding afterMainLoop_def
  by (rule mainLoop_inv[where I = "\<lambda>s. \<forall>d\<in>set (timeDeltasMs s). 0 < d"])
     (simp_all add: mainStep_timeDeltas_pos initial_audit_def)










lemma candidates_Nil [simp]:
  "timeDeltaCandidates P [] = []"
  "distanceCandidates D [] = []"
  "timeConditionedCandidates P D [] = []"
  by (simp_all add: timeDeltaCandidates_def timestampsOf_def distanceCandidates_def
      timeConditionedCandidates_def)

lemma lastTimestamp_Nil [simp]: "lastTimestamp P [] = None"
  by (simp add: lastTimestamp_def timestampsOf_def)











section \<open>Peak detection\<close>

lemma kdePoint_copy: "\<lparr>xLog = xLog c, xLinear = xLinear c, y = y c\<rparr> = c"
  by simp

lemma peaksLoop_step:
  "i < length ps - 1 \<Longrightarrow>
   peaksLoop ps i acc = peaksLoop ps (Suc i) (if isPeakAt ps i then acc @ [ps ! i] else acc)"
  by (subst peaksLoop.simps) (simp add: isPeakAt_def Let_def kdePoint_copy)

lemma peaksLoop_exit: "\<not> i < length ps - 1 \<Longrightarrow> peaksLoop ps i acc = acc"
  by (subst peaksLoop.simps) simp

lemma peaksLoop_eq:
  "peaksLoop ps i acc = acc @ map ((!) ps) (filter (isPeakAt ps) [i..<length ps - 1])"
proof (induction "length ps - 1 - i" arbitrary: i acc)
  case 0
  then show ?case by (simp add: peaksLoop_exit)
next
  case (Suc k)
  then have lt: "i < length ps - 1" and k: "k = length ps - 1 - Suc i"
    by simp_all
  have upt: "[i..<length ps - 1] = i # [Suc i..<length ps - 1]"
    using lt by (rule upt_conv_Cons)
  show ?case
    unfolding peaksLoop_step [OF lt] Suc.hyps(1) [OF k] upt by simp
qed

text \<open>
  C7. For every curve, \<open>detectPeaks\<close> returns the points at exactly the interior
  indices \<open>i\<close>, \<open>1 \<le> i \<le> m - 2\<close>, in increasing order, at which \<open>y\<close> is
  strictly greater than at both neighbours; the first and last index are never examined;
  a curve with fewer than three points has no peaks; and a curve with the values
  \<open>[1, 3, 1, 2, 1]\<close> has exactly the peaks at index 1 and index 3.
\<close>

theorem detectPeaks_interior_maxima:
  "detectPeaks kdePoints =
     map ((!) kdePoints) (filter (isPeakAt kdePoints) [1..<length kdePoints - 1]) \<and>
   (length kdePoints < 3 \<longrightarrow> detectPeaks kdePoints = []) \<and>
   (map y kdePoints = [Fin 1, Fin 3, Fin 1, Fin 2, Fin 1] \<longrightarrow>
      detectPeaks kdePoints = [kdePoints ! 1, kdePoints ! 3])"
proof (intro conjI impI)
  show eq: "detectPeaks kdePoints =
     map ((!) kdePoints) (filter (isPeakAt kdePoints) [1..<length kdePoints - 1])"
    by (simp add: detectPeaks_def peaksLoop_eq)
  show "detectPeaks kdePoints = []" if "length kdePoints < 3"
    using that by (simp add: detectPeaks_def)
  show "detectPeaks kdePoints = [kdePoints ! 1, kdePoints ! 3]"
    if ys: "map y kdePoints = [Fin 1, Fin 3, Fin 1, Fin 2, Fin 1]"
  proof -
    from ys obtain a b c d e where ps: "kdePoints = [a, b, c, d, e]"
      by (auto simp: map_eq_Cons_conv)
    with ys have vals: "y a = Fin 1" "y b = Fin 3" "y c = Fin 1" "y d = Fin 2" "y e = Fin 1"
      by simp_all
    have upt: "[1..<4] = [1, 2, 3::nat]"
      by (simp add: upt_rec)
    show ?thesis
      unfolding eq by (simp add: ps upt isPeakAt_def js_gt_def vals)
  qed
qed

theorem detectPeaks_interior_maxima_witness:
  "length sampleCurve = 5 \<and> map y sampleCurve = [Fin 1, Fin 3, Fin 1, Fin 2, Fin 1] \<and>
   detectPeaks sampleCurve = [sampleCurve ! 1, sampleCurve ! 3] \<and>
   y (sampleCurve ! 1) = Fin 3 \<and> y (sampleCurve ! 3) = Fin 2 \<and>
   filter (isPeakAt sampleCurve) [1..<length sampleCurve - 1] = [1, 3] \<and>
   length (take 2 sampleCurve) < 3 \<and> detectPeaks (take 2 sampleCurve) = []"
  using detectPeaks_interior_maxima [of sampleCurve]
    detectPeaks_interior_maxima [of "take 2 sampleCurve"]
  by (simp add: sampleCurve_def isPeakAt_def js_gt_def upt_rec)

section \<open>Rounding to the nearest double\<close>

text \<open>
  Rounding to an integer is monotone and odd, and fixes the integers.
\<close>

lemma rhe_of_int [simp]: "rhe (of_int n) = n"
  by (simp add: rhe_def)

lemma rhe_bounds: "\<lfloor>x\<rfloor> \<le> rhe x" "rhe x \<le> \<lfloor>x\<rfloor> + 1"
  by (simp_all add: rhe_def Let_def)

lemma rhe_mono: assumes "x \<le> z" shows "rhe x \<le> rhe z"
proof (cases "\<lfloor>x\<rfloor> = \<lfloor>z\<rfloor>")
  case True
  with assms show ?thesis
    by (auto simp: rhe_def Let_def)
next
  case False
  with assms have "\<lfloor>x\<rfloor> < \<lfloor>z\<rfloor>"
    by (simp add: floor_mono order.not_eq_order_implies_strict)
  then show ?thesis
    using rhe_bounds(2) [of x] rhe_bounds(1) [of z] by linarith
qed

lemma rhe_ge: "of_int n \<le> x \<Longrightarrow> n \<le> rhe x"
  using rhe_mono [of "of_int n" x] by simp

lemma rhe_le: "x \<le> of_int n \<Longrightarrow> rhe x \<le> n"
  using rhe_mono [of x "of_int n"] by simp

lemma rhe_minus: "rhe (- x) = - rhe x"
proof (cases "x = of_int \<lfloor>x\<rfloor>")
  case True
  then obtain n where "x = of_int n" ..
  then have "- x = of_int (- n)" by simp
  then show ?thesis
    unfolding \<open>x = of_int n\<close> by (metis rhe_of_int of_int_minus)
next
  case False
  then have fl: "\<lfloor>- x\<rfloor> = - \<lfloor>x\<rfloor> - 1"
    by (metis ceiling_altdef ceiling_def add_diff_cancel_right' minus_diff_eq diff_minus_eq_add minus_add_distrib uminus_add_conv_diff)
  have r: "0 < x - of_int \<lfloor>x\<rfloor>" "x - of_int \<lfloor>x\<rfloor> < 1"
    using False by linarith+
  show ?thesis
    using r by (auto simp: rhe_def Let_def fl)
qed

text \<open>The binade of a real: \<open>2 ^ binade x \<le> |x| < 2 ^ (binade x + 1)\<close> above the subnormal range.\<close>

lemma pow2_powr: "2 powr real_of_int k = (2::real) powi k"
  by (rule powr_real_of_int') simp_all

lemma floor_log2_bounds:
  assumes "x \<noteq> 0"
  shows "2 powi \<lfloor>log 2 \<bar>x\<bar>\<rfloor> \<le> \<bar>x\<bar>" "\<bar>x\<bar> < 2 powi (\<lfloor>log 2 \<bar>x\<bar>\<rfloor> + 1)"
proof -
  have "0 < \<bar>x\<bar>" using assms by simp
  from floor_log_eq_powr_iff [OF this, of 2 "\<lfloor>log 2 \<bar>x\<bar>\<rfloor>"]
  have "2 powr real_of_int \<lfloor>log 2 \<bar>x\<bar>\<rfloor> \<le> \<bar>x\<bar> \<and>
        \<bar>x\<bar> < 2 powr (real_of_int \<lfloor>log 2 \<bar>x\<bar>\<rfloor> + 1)"
    by simp
  moreover have "2 powr (real_of_int \<lfloor>log 2 \<bar>x\<bar>\<rfloor> + 1) = (2::real) powi (\<lfloor>log 2 \<bar>x\<bar>\<rfloor> + 1)"
    using pow2_powr [of "\<lfloor>log 2 \<bar>x\<bar>\<rfloor> + 1"] by simp
  ultimately show "2 powi \<lfloor>log 2 \<bar>x\<bar>\<rfloor> \<le> \<bar>x\<bar>" "\<bar>x\<bar> < 2 powi (\<lfloor>log 2 \<bar>x\<bar>\<rfloor> + 1)"
    by (simp_all add: pow2_powr)
qed

lemma binade_ge: "- 1022 \<le> binade x"
  by (simp add: binade_def)

lemma binade_upper: "x \<noteq> 0 \<Longrightarrow> \<bar>x\<bar> < 2 powi (binade x + 1)"
proof -
  assume x: "x \<noteq> 0"
  have "\<lfloor>log 2 \<bar>x\<bar>\<rfloor> + 1 \<le> binade x + 1"
    by (simp add: binade_def)
  then have "(2::real) powi (\<lfloor>log 2 \<bar>x\<bar>\<rfloor> + 1) \<le> 2 powi (binade x + 1)"
    by (intro power_int_increasing) simp_all
  with floor_log2_bounds(2) [OF x] show ?thesis by linarith
qed

lemma binade_lower: "x \<noteq> 0 \<Longrightarrow> - 1022 < binade x \<Longrightarrow> 2 powi binade x \<le> \<bar>x\<bar>"
  using floor_log2_bounds(1) [of x] by (simp add: binade_def max_def split: if_splits)

lemma binade_eqI:
  assumes "2 powi e \<le> \<bar>x\<bar>" "\<bar>x\<bar> < 2 powi (e + 1)" "- 1022 \<le> e"
  shows "binade x = e"
proof -
  have pos: "0 < \<bar>x\<bar>"
    using assms(1) zero_less_power_int [of "2::real" e] by linarith
  have "\<lfloor>log 2 \<bar>x\<bar>\<rfloor> = e"
    using assms(1,2) floor_log_eq_powr_iff [OF pos, of 2 e] pow2_powr [of e] pow2_powr [of "e + 1"]
    by simp
  then show ?thesis
    using assms(3) by (simp add: binade_def)
qed

lemma binade_mono:
  assumes "x \<noteq> 0" "\<bar>x\<bar> \<le> \<bar>z\<bar>"
  shows "binade x \<le> binade z"
proof -
  have "0 < \<bar>x\<bar>" using assms(1) by simp
  then have "log 2 \<bar>x\<bar> \<le> log 2 \<bar>z\<bar>"
    using assms(2) by simp
  then have "\<lfloor>log 2 \<bar>x\<bar>\<rfloor> \<le> \<lfloor>log 2 \<bar>z\<bar>\<rfloor>"
    by (rule floor_mono)
  then show ?thesis by (simp add: binade_def)
qed

lemma binade_minus [simp]: "binade (- x) = binade x"
  by (simp add: binade_def)

lemma roundReal_minus: "roundReal (- x) = - roundReal x"
  by (simp add: roundReal_def rhe_minus)

lemma ulp_53: "(2::real) powi (e + 1) = 2 ^ 53 * 2 powi (e - 52)"
  using power_int_add [of "2::real" 53 "e - 52"] by (simp add: add.commute)

lemma ulp_52: "(2::real) powi e = 2 ^ 52 * 2 powi (e - 52)"
  using power_int_add [of "2::real" 52 "e - 52"] by simp

text \<open>A positive value rounds into the closed binade it lies in.\<close>

lemma roundReal_pos_upper:
  assumes "0 < x"
  shows "roundReal x \<le> 2 powi (binade x + 1)"
proof -
  let ?u = "(2::real) powi (binade x - 52)"
  have u: "0 < ?u" by simp
  have "x < 2 powi (binade x + 1)"
    using binade_upper [of x] assms by simp
  also have "(2::real) powi (binade x + 1) = 2 ^ 53 * ?u"
    by (rule ulp_53)
  finally have "x / ?u \<le> of_int (2 ^ 53)"
    using u by (simp add: pos_divide_le_eq)
  then have "rhe (x / ?u) \<le> 2 ^ 53"
    by (rule rhe_le)
  then have "of_int (rhe (x / ?u)) * ?u \<le> of_int (2 ^ 53) * ?u"
    using u by (intro mult_right_mono) simp_all
  also have "of_int (2 ^ 53) * ?u = 2 powi (binade x + 1)"
    using ulp_53 [of "binade x"] by simp
  finally show ?thesis
    using assms by (simp add: roundReal_def)
qed

lemma roundReal_pos_lower:
  assumes "0 < x" "- 1022 < binade x"
  shows "2 powi binade x \<le> roundReal x"
proof -
  let ?u = "(2::real) powi (binade x - 52)"
  have u: "0 < ?u" by simp
  have eq: "(2::real) powi binade x = 2 ^ 52 * ?u"
    by (rule ulp_52)
  have "2 powi binade x \<le> x"
    using binade_lower [of x] assms by simp
  then have "of_int (2 ^ 52) \<le> x / ?u"
    using u by (simp add: pos_le_divide_eq eq)
  then have "2 ^ 52 \<le> rhe (x / ?u)"
    by (rule rhe_ge)
  then have "of_int (2 ^ 52) * ?u \<le> of_int (rhe (x / ?u)) * ?u"
    using u by (intro mult_right_mono) simp_all
  then show ?thesis
    using assms by (simp add: roundReal_def eq)
qed

lemma roundReal_nonneg: "0 \<le> x \<Longrightarrow> 0 \<le> roundReal x"
proof -
  assume "0 \<le> x"
  then have "0 \<le> x / 2 powi (binade x - 52)" by simp
  then have "0 \<le> rhe (x / 2 powi (binade x - 52))"
    using rhe_ge [of 0] by simp
  then show ?thesis by (simp add: roundReal_def)
qed

text \<open>Rounding is monotone.\<close>

lemma roundReal_mono_pos:
  assumes "0 < x" "x \<le> z"
  shows "roundReal x \<le> roundReal z"
proof -
  have z: "0 < z" using assms by linarith
  have le: "binade x \<le> binade z"
    using assms by (intro binade_mono) simp_all
  show ?thesis
  proof (cases "binade x = binade z")
    case True
    let ?u = "(2::real) powi (binade z - 52)"
    have "x / ?u \<le> z / ?u"
      using assms(2) by (simp add: divide_right_mono)
    then have "rhe (x / ?u) \<le> rhe (z / ?u)"
      by (rule rhe_mono)
    then have "of_int (rhe (x / ?u)) * ?u \<le> of_int (rhe (z / ?u)) * ?u"
      by (intro mult_right_mono) simp_all
    then show ?thesis
      using assms(1) z True by (simp add: roundReal_def)
  next
    case False
    with le have lt: "binade x + 1 \<le> binade z" by linarith
    with binade_ge [of x] have "- 1022 < binade z" by linarith
    from roundReal_pos_lower [OF z this] have "2 powi binade z \<le> roundReal z" .
    moreover have "(2::real) powi (binade x + 1) \<le> 2 powi binade z"
      using lt by (intro power_int_increasing) simp_all
    ultimately show ?thesis
      using roundReal_pos_upper [OF assms(1)] by linarith
  qed
qed

lemma roundReal_mono: assumes "x \<le> z" shows "roundReal x \<le> roundReal z"
proof -
  consider "0 < x" | "x \<le> 0" "0 \<le> z" | "z < 0" by linarith
  then show ?thesis
  proof cases
    case 1
    then show ?thesis using assms by (rule roundReal_mono_pos)
  next
    case 2
    then have "roundReal x \<le> 0"
      using roundReal_nonneg [of "- x"] by (simp add: roundReal_minus)
    with roundReal_nonneg [OF 2(2)] show ?thesis by linarith
  next
    case 3
    then have "roundReal (- z) \<le> roundReal (- x)"
      using assms by (intro roundReal_mono_pos) simp_all
    then show ?thesis by (simp add: roundReal_minus)
  qed
qed

text \<open>
  The numbers \<open>m * 2 ^ k\<close> with \<open>|m| < 2 ^ 53\<close> and \<open>k \<ge> -1074\<close> are doubles: rounding
  fixes them, and so it is idempotent.
\<close>

lemma roundReal_dbl:
  assumes "\<bar>m\<bar> < 2 ^ 53" "- 1074 \<le> k"
  shows "roundReal (dbl m k) = dbl m k"
proof (cases "m = 0")
  case True
  then show ?thesis by (simp add: dbl_def roundReal_def)
next
  case False
  let ?x = "dbl m k"
  let ?e = "binade ?x"
  have x0: "?x \<noteq> 0"
    using False by (simp add: dbl_def)
  have absx: "\<bar>?x\<bar> = of_int \<bar>m\<bar> * 2 powi k"
    by (simp add: dbl_def abs_mult)
  have le: "?e \<le> k + 52"
  proof (cases "- 1022 < ?e")
    case False
    with assms(2) show ?thesis by linarith
  next
    case True
    from binade_lower [OF x0 True] have "2 powi ?e \<le> of_int \<bar>m\<bar> * (2::real) powi k"
      by (simp add: absx)
    also have "of_int \<bar>m\<bar> * (2::real) powi k < 2 ^ 53 * 2 powi k"
    proof -
      have "real_of_int \<bar>m\<bar> < real_of_int (2 ^ 53)"
        using assms(1) by (simp only: of_int_less_iff)
      then show ?thesis by simp
    qed
    also have "(2::real) ^ 53 * 2 powi k = 2 powi (53 + k)"
      using power_int_add [of "2::real" 53 k] by simp
    finally have lt: "(2::real) powi ?e < 2 powi (53 + k)" .
    have "?e < 53 + k"
    proof (rule ccontr)
      assume "\<not> ?e < 53 + k"
      then have "(2::real) powi (53 + k) \<le> 2 powi ?e"
        by (intro power_int_increasing) simp_all
      with lt show False by linarith
    qed
    then show ?thesis by linarith
  qed
  define j where "j = nat (k + 52 - ?e)"
  have j: "k = (?e - 52) + int j"
    using le by (simp add: j_def)
  define u where "u = (2::real) powi (?e - 52)"
  have u: "0 < u" by (simp add: u_def)
  have pk: "(2::real) powi k = u * 2 ^ j"
    unfolding u_def by (subst j) (simp add: power_int_add)
  have x: "?x = of_int (m * 2 ^ j) * u"
    by (simp add: dbl_def pk)
  have q: "?x / u = of_int (m * 2 ^ j)"
    unfolding x using u by simp
  have "roundReal ?x = of_int (rhe (?x / u)) * u"
    using x0 by (simp add: roundReal_def u_def)
  also have "\<dots> = of_int (m * 2 ^ j) * u"
    unfolding q by (simp only: rhe_of_int)
  also have "\<dots> = ?x"
    by (rule x [symmetric])
  finally show ?thesis .
qed

lemma roundReal_idem: "roundReal (roundReal x) = roundReal x"
proof (cases "x = 0")
  case True
  then show ?thesis by (simp add: roundReal_def)
next
  case False
  define k where "k = binade x - 52"
  define u where "u = (2::real) powi k"
  define n where "n = rhe (x / u)"
  have u: "0 < u" by (simp add: u_def)
  have r: "roundReal x = dbl n k"
    using False by (simp add: roundReal_def n_def u_def k_def dbl_def)
  have k: "- 1074 \<le> k"
    using binade_ge [of x] by (simp add: k_def)
  have "\<bar>x\<bar> < 2 ^ 53 * u"
    using binade_upper [OF False] ulp_53 [of "binade x"] by (simp add: u_def k_def)
  then have "\<bar>x\<bar> / u < 2 ^ 53"
    using u by (simp add: pos_divide_less_eq)
  moreover have "\<bar>x / u\<bar> = \<bar>x\<bar> / u"
    using u by (simp only: abs_divide abs_of_pos)
  moreover define q where "q = x / u"
  ultimately have "\<bar>q\<bar> < 2 ^ 53"
    by (simp only:)
  then have "of_int (- (2 ^ 53)) \<le> q" "q \<le> of_int (2 ^ 53)"
    by simp_all
  then have "of_int (- (2 ^ 53)) \<le> x / u" "x / u \<le> of_int (2 ^ 53)"
    by (simp_all only: q_def)
  then have nb: "- (2 ^ 53) \<le> n" "n \<le> 2 ^ 53"
    unfolding n_def by (simp_all only: rhe_ge rhe_le)
  consider "\<bar>n\<bar> < 2 ^ 53" | "n = 2 ^ 53" | "n = - (2 ^ 53)"
    using nb by linarith
  then show ?thesis
  proof cases
    case 1
    then show ?thesis unfolding r using k by (rule roundReal_dbl)
  next
    case 2
    have "dbl n k = dbl 1 (k + 53)"
      using power_int_add [of "2::real" k 53] by (simp add: dbl_def 2)
    moreover have "roundReal (dbl 1 (k + 53)) = dbl 1 (k + 53)"
      using k by (intro roundReal_dbl) simp_all
    ultimately show ?thesis by (simp add: r)
  next
    case 3
    have "dbl n k = dbl (- 1) (k + 53)"
      using power_int_add [of "2::real" k 53] by (simp add: dbl_def 3)
    moreover have "roundReal (dbl (- 1) (k + 53)) = dbl (- 1) (k + 53)"
      using k by (intro roundReal_dbl) simp_all
    ultimately show ?thesis by (simp add: r)
  qed
qed

text \<open>The result of an operation: finite exactly when the rounded value is in range.\<close>

lemma rnd_0 [simp]: "rnd 0 = Fin 0"
  by (simp add: rnd_def roundReal_def)

lemma rnd_Fin_iff: "rnd x = Fin r \<longleftrightarrow> roundReal x = r \<and> \<bar>r\<bar> < 2 powi 1024"
  by (auto simp: rnd_def Let_def)

lemma rnd_idem: "rnd x = Fin r \<Longrightarrow> rnd r = Fin r"
  using roundReal_idem [of x] by (auto simp: rnd_Fin_iff)

lemma rnd_mono: "x \<le> z \<Longrightarrow> rnd x = Fin r \<Longrightarrow> rnd z = Fin s \<Longrightarrow> r \<le> s"
  using roundReal_mono [of x z] by (auto simp: rnd_Fin_iff)

lemma rnd_between:
  assumes "a \<le> x" "x \<le> b" "rnd a = Fin a" "rnd b = Fin b"
  shows "\<exists>r. rnd x = Fin r \<and> a \<le> r \<and> r \<le> b"
proof -
  have a: "roundReal a = a" "\<bar>a\<bar> < 2 powi 1024" and b: "roundReal b = b" "\<bar>b\<bar> < 2 powi 1024"
    using assms(3,4) by (simp_all add: rnd_Fin_iff)
  have "a \<le> roundReal x" "roundReal x \<le> b"
    using roundReal_mono [OF assms(1)] roundReal_mono [OF assms(2)] a(1) b(1) by simp_all
  then show ?thesis
    using a(2) b(2) by (intro exI [of _ "roundReal x"]) (simp add: rnd_Fin_iff)
qed

lemma rnd_dbl:
  assumes "\<bar>m\<bar> < 2 ^ 53" "- 1074 \<le> k" "k \<le> 971"
  shows "rnd (dbl m k) = Fin (dbl m k)"
proof -
  have "real_of_int \<bar>m\<bar> < real_of_int (2 ^ 53)"
    using assms(1) by (simp only: of_int_less_iff)
  then have "\<bar>dbl m k\<bar> < 2 ^ 53 * 2 powi k"
    by (simp add: dbl_def abs_mult)
  also have "(2::real) powi k \<le> 2 powi 971"
    using assms(3) by (intro power_int_increasing) simp_all
  then have "(2::real) ^ 53 * 2 powi k \<le> 2 ^ 53 * 2 powi 971"
    by simp
  also have "(2::real) ^ 53 * 2 powi 971 = 2 powi 1024"
    using power_int_add [of "2::real" 53 971] by simp
  finally show ?thesis
    using roundReal_dbl [OF assms(1,2)] by (simp add: rnd_Fin_iff)
qed

lemma rnd_of_int: "\<bar>m\<bar> < 2 ^ 53 \<Longrightarrow> rnd (of_int m) = Fin (of_int m)"
  using rnd_dbl [of m 0] by (simp add: dbl_def)

lemma rnd_of_nat: "i < 2 ^ 53 \<Longrightarrow> rnd (real i) = Fin (real i)"
  using rnd_of_int [of "int i"] by simp

lemma rnd_1 [simp]: "rnd 1 = Fin 1"
  using rnd_of_int [of 1] by simp

lemma rnd_numeral: "(numeral k :: int) < 2 ^ 53 \<Longrightarrow> rnd (numeral k) = Fin (numeral k)"
  using rnd_of_int [of "numeral k"] by simp

lemma rnd_neg_numeral:
  "(numeral k :: int) < 2 ^ 53 \<Longrightarrow> rnd (- numeral k) = Fin (- numeral k)"
  using rnd_of_int [of "- numeral k"] by simp

lemma rnd_2048: "rnd 2048 = Fin 2048"
  by (rule rnd_numeral) simp

lemma rnd_4096: "rnd 4096 = Fin 4096"
  by (rule rnd_numeral) simp

lemma rnd_neg_1024: "rnd (- 1024) = Fin (- 1024)"
  by (rule rnd_neg_numeral) simp

lemma roundReal_1: "roundReal 1 = 1"
  using rnd_1 [unfolded rnd_Fin_iff] by simp

text \<open>
  The rounding of a value whose binade is known, for the evaluation of concrete
  operations.
\<close>

lemma roundReal_at:
  assumes "2 powi e \<le> \<bar>x\<bar>" "\<bar>x\<bar> < 2 powi (e + 1)" "- 1022 \<le> e"
  shows "roundReal x = dbl (rhe (x / 2 powi (e - 52))) (e - 52)"
proof -
  have e: "binade x = e"
    using assms(1-3) by (rule binade_eqI)
  have "0 < (2::real) powi e"
    by simp
  with assms(1) have "0 < \<bar>x\<bar>"
    by linarith
  then have "x \<noteq> 0"
    by simp
  then show ?thesis
    by (simp add: roundReal_def e dbl_def)
qed

lemma rnd_at:
  assumes "2 powi e \<le> \<bar>x\<bar>" "\<bar>x\<bar> < 2 powi (e + 1)" "- 1022 \<le> e" "e \<le> 1022"
  shows "rnd x = Fin (dbl (rhe (x / 2 powi (e - 52))) (e - 52))"
proof -
  have b: "rnd (dbl (2 ^ 52) (e - 51)) = Fin (dbl (2 ^ 52) (e - 51))"
    "rnd (dbl (- (2 ^ 52)) (e - 51)) = Fin (dbl (- (2 ^ 52)) (e - 51))"
    using assms(3,4) by (intro rnd_dbl; simp)+
  have "(2::real) powi (e + 1) = 2 ^ 52 * 2 powi (e - 51)"
    using power_int_add [of "2::real" 52 "e - 51"] by (simp add: add.commute)
  then have "dbl (- (2 ^ 52)) (e - 51) \<le> x" "x \<le> dbl (2 ^ 52) (e - 51)"
    using assms(2) by (simp_all add: dbl_def abs_if split: if_splits)
  from rnd_between [OF this b(2,1)] obtain r where "rnd x = Fin r"
    by blast
  then show ?thesis
    using roundReal_at [OF assms(1-3)] by (simp add: rnd_Fin_iff)
qed

lemma rnd_half: "rnd (1 / 2) = Fin (1 / 2)"
  using rnd_dbl [of 1 "- 1"] by (simp add: dbl_def)

lemma rnd_thirds:
  "rnd (1 / 3) = Fin (dbl 6004799503160661 (- 54))"
  "rnd (2 / 3) = Fin (dbl 6004799503160661 (- 53))"
  by (subst rnd_at [where e = "- 2"], simp_all add: dbl_def rhe_def Let_def)
    (subst rnd_at [where e = "- 1"], simp_all add: dbl_def rhe_def Let_def)

section \<open>The density curve\<close>

lemma kdeLoop_eq: "kdeLoop g n i acc = acc @ map g [i..<n]"
proof (induction "n - i" arbitrary: i acc)
  case 0
  then show ?case by (subst kdeLoop.simps) simp
next
  case (Suc k)
  then have lt: "i < n" and k: "k = n - Suc i"
    by simp_all
  show ?case
    using lt by (subst kdeLoop.simps) (simp add: Suc.hyps(1) [OF k] upt_conv_Cons)
qed

lemma validDatum_iff: "validDatum d \<longleftrightarrow> (\<exists>v. d = Fin v \<and> 0 < v)"
  by (cases d) (simp_all add: validDatum_def js_gt_def)

lemma valid_filter: "(\<exists>v. Fin v \<in> set dat \<and> 0 < v) \<longleftrightarrow> filter validDatum dat \<noteq> []"
  by (auto simp: filter_empty_conv validDatum_iff)

lemma computeKDE_eq:
  assumes "filter validDatum dat \<noteq> []"
  shows "computeKDE E dat h m =
           map (gridPoint E (xMinLog E dat) (xMaxLog E dat) m h
                  (normalization E (length (filter validDatum dat)) h)
                  (map (Math_log E) (filter validDatum dat)))
             [0..<m]"
  using assms by (simp add: computeKDE_def Let_def kdeLoop_eq xMinLog_def xMaxLog_def)

lemma computeKDE_empty: "filter validDatum dat = [] \<Longrightarrow> computeKDE E dat h m = []"
  by (simp add: computeKDE_def)

lemma computeKDE_length:
  "length (computeKDE E dat h m) = (if filter validDatum dat = [] then 0 else m)"
  by (simp add: computeKDE_eq computeKDE_empty)

lemma computeKDE_nth:
  assumes "filter validDatum dat \<noteq> []" "i < m"
  shows "computeKDE E dat h m ! i =
           gridPoint E (xMinLog E dat) (xMaxLog E dat) m h
             (normalization E (length (filter validDatum dat)) h)
             (map (Math_log E) (filter validDatum dat)) i"
  using assms(2) by (simp add: computeKDE_eq [OF assms(1)])

lemma gridPoint_sel:
  "xLog (gridPoint E lo hi m h nrm logs i) = gridX lo hi m i"
  "xLinear (gridPoint E lo hi m h nrm logs i) = Math_exp E (gridX lo hi m i)"
  "y (gridPoint E lo hi m h nrm logs i) = js_mul (kernelSum E (gridX lo hi m i) h logs) nrm"
  by (simp_all add: gridPoint_def Let_def)

lemma js_mul_NaN_right: "js_mul a NaN = NaN"
  by (cases a) simp_all

lemma js_add_NaN_right: "js_add a NaN = NaN"
  by (cases a) simp_all

lemma gridX_single: "gridX lo hi (Suc 0) 0 = NaN"
  by (simp add: gridX_def js_sub_def js_mul_NaN_right js_add_NaN_right)

text \<open>
  C10. For every series with at least one positive finite value and every bandwidth,
  \<open>computeKDE\<close> with \<open>numPoints = 1\<close> returns a single curve point whose
  \<open>xLog\<close> and \<open>xLinear\<close> are NaN: the grid position divides \<open>0\<close> by
  \<open>numPoints - 1 = 0\<close>. This holds for every engine.
\<close>

theorem computeKDE_one_point_NaN:
  assumes "\<exists>v. Fin v \<in> set dat \<and> 0 < v"
  shows "\<exists>p. computeKDE E dat h 1 = [p] \<and> xLog p = NaN \<and> xLinear p = NaN"
proof -
  from assms have "filter validDatum dat \<noteq> []"
    by (simp add: valid_filter)
  then show ?thesis
    by (simp add: computeKDE_eq gridPoint_sel gridX_single)
qed

text \<open>The density of that point is NaN as well.\<close>

lemma kernelTerm_NaN: "kernelTerm E NaN h d = NaN"
  by (simp add: kernelTerm_def js_sub_def js_mul_NaN_right)

lemma kernelSum_NaN: "logs \<noteq> [] \<Longrightarrow> kernelSum E NaN h logs = NaN"
proof -
  have "foldl (\<lambda>dens d. js_add dens (kernelTerm E NaN h d)) acc logs = NaN"
    if "logs \<noteq> []" for acc
    using that by (induction logs arbitrary: acc rule: rev_induct)
      (simp_all add: kernelTerm_NaN js_add_NaN_right)
  then show "logs \<noteq> [] \<Longrightarrow> kernelSum E NaN h logs = NaN"
    by (simp add: kernelSum_def)
qed

lemma computeKDE_one_point_density:
  assumes "filter validDatum dat \<noteq> []"
  shows "y (computeKDE E dat h 1 ! 0) = NaN"
  using assms
  by (simp add: computeKDE_nth [OF assms] gridPoint_sel gridX_single kernelSum_NaN)

theorem computeKDE_one_point_NaN_witness:
  "(\<exists>v. Fin v \<in> set [Fin 1, NaN, Fin 2, Fin (- 3)] \<and> 0 < v) \<and>
   computeKDE sampleEngine [Fin 1, NaN, Fin 2, Fin (- 3)] (Fin 1) 1 =
     [\<lparr>xLog = NaN, xLinear = NaN, y = NaN\<rparr>]"
proof -
  have h: "\<exists>v. Fin v \<in> set [Fin 1, NaN, Fin 2, Fin (- 3)] \<and> 0 < v"
    by (rule exI [of _ 1]) simp
  then have ne: "filter validDatum [Fin 1, NaN, Fin 2, Fin (- 3)] \<noteq> []"
    using valid_filter by blast
  from computeKDE_one_point_NaN [OF h, of sampleEngine "Fin 1"] obtain p where
    p: "computeKDE sampleEngine [Fin 1, NaN, Fin 2, Fin (- 3)] (Fin 1) 1 = [p]"
      "xLog p = NaN" "xLinear p = NaN"
    by blast
  have "y p = NaN"
    using computeKDE_one_point_density [OF ne, of sampleEngine "Fin 1"] unfolding p(1) by simp
  then have "p = \<lparr>xLog = NaN, xLinear = NaN, y = NaN\<rparr>"
    using p(2,3) by (cases p) simp
  then show ?thesis
    using h p(1) by simp
qed

subsection \<open>The grid\<close>

lemma foldl_js_min2: "foldl js_min2 (Fin a) (map Fin xs) = Fin (fold min xs a)"
proof (induction xs arbitrary: a)
  case Nil
  then show ?case by simp
next
  case (Cons x xs)
  have "js_min2 (Fin a) (Fin x) = Fin (min x a)"
    by (simp add: min_def)
  then show ?case by (simp add: Cons.IH)
qed

lemma foldl_js_max2: "foldl js_max2 (Fin a) (map Fin xs) = Fin (fold max xs a)"
proof (induction xs arbitrary: a)
  case Nil
  then show ?case by simp
next
  case (Cons x xs)
  have "js_max2 (Fin a) (Fin x) = Fin (max x a)"
    by (simp add: max_def)
  then show ?case by (simp add: Cons.IH)
qed

lemma Math_min_Fin: "xs \<noteq> [] \<Longrightarrow> Math_min (map Fin xs) = Fin (Min (set xs))"
  by (cases xs) (simp_all add: Math_min_def foldl_js_min2 Min.set_eq_fold del: set_simps)

lemma Math_max_Fin: "xs \<noteq> [] \<Longrightarrow> Math_max (map Fin xs) = Fin (Max (set xs))"
  by (cases xs) (simp_all add: Math_max_def foldl_js_max2 Max.set_eq_fold del: set_simps)

text \<open>The grid positions when the bounds are finite doubles of moderate size.\<close>

lemma gridX_Fin:
  assumes lohi: "lo \<le> hi" and dlo: "rnd lo = Fin lo" and dhi: "rnd hi = Fin hi"
    and blo: "\<bar>lo\<bar> \<le> 1024" and bhi: "\<bar>hi\<bar> \<le> 1024"
    and m: "2 \<le> m" "m \<le> 2 ^ 53" and i: "i < m"
  shows "gridX (Fin lo) (Fin hi) m i = Fin (gridReal lo hi m i)"
proof -
  have m1: "js_sub (Fin (real m)) (Fin 1) = Fin (real (m - 1))"
  proof -
    have e: "real m - 1 = real (m - 1)"
      using m(1) by (simp add: of_nat_diff)
    have "m - 1 < m"
      using m(1) by simp
    then have b: "m - 1 < 2 ^ 53"
      using m(2) by (rule less_le_trans)
    have "js_sub (Fin (real m)) (Fin 1) = rnd (real m - 1)"
      by (simp add: js_sub_def)
    also have "\<dots> = rnd (real (m - 1))"
      by (simp only: e)
    also have "\<dots> = Fin (real (m - 1))"
      using b by (rule rnd_of_nat)
    finally show ?thesis .
  qed
  have pos: "0 < real (m - 1)"
    using m(1) by simp
  have "0 \<le> real i / real (m - 1)" "real i / real (m - 1) \<le> 1"
    using i pos by (simp_all add: pos_divide_le_eq)
  from rnd_between [OF this rnd_0 rnd_1] obtain t where
    t: "rnd (real i / real (m - 1)) = Fin t" "0 \<le> t" "t \<le> 1"
    by blast
  have "0 \<le> hi - lo" "hi - lo \<le> 2048"
    using lohi blo bhi by linarith+
  from rnd_between [OF this rnd_0 rnd_2048] obtain d where
    d: "rnd (hi - lo) = Fin d" "0 \<le> d" "d \<le> 2048"
    by blast
  have dd: "rnd d = Fin d"
    using d(1) by (rule rnd_idem)
  have "0 \<le> d * t" "d * t \<le> d"
    using d(2) t(2,3) by (simp_all add: mult_left_le)
  from rnd_between [OF this rnd_0 dd] obtain p where
    p: "rnd (d * t) = Fin p" "0 \<le> p" "p \<le> d"
    by blast
  have "- 1024 \<le> lo + p" "lo + p \<le> 4096"
    using blo p(2,3) d(3) by linarith+
  from rnd_between [OF this rnd_neg_1024 rnd_4096] obtain x where
    x: "rnd (lo + p) = Fin x"
    by blast
  have s2: "js_div (Fin (real i)) (Fin (real (m - 1))) = Fin t"
    using pos t(1) by simp
  have s3: "js_sub (Fin hi) (Fin lo) = Fin d"
    using d(1) by (simp add: js_sub_def)
  have s4: "js_mul (Fin d) (Fin t) = Fin p"
    using p(1) by simp
  have s5: "js_add (Fin lo) (Fin p) = Fin x"
    using x by simp
  have "gridX (Fin lo) (Fin hi) m i = Fin x"
    unfolding gridX_def m1 s2 s3 s4 s5 ..
  moreover have "x = gridReal lo hi m i"
    using t(1) d(1) p(1) x by (simp add: gridReal_def rnd_Fin_iff)
  ultimately show ?thesis by simp
qed

lemma gridReal_mono:
  assumes "lo \<le> hi" "i \<le> j"
  shows "gridReal lo hi m i \<le> gridReal lo hi m j"
proof -
  have "real i / real (m - 1) \<le> real j / real (m - 1)"
    using assms(2) by (simp add: divide_right_mono)
  then have "roundReal (real i / real (m - 1)) \<le> roundReal (real j / real (m - 1))"
    by (rule roundReal_mono)
  moreover have "0 \<le> roundReal (hi - lo)"
    using assms(1) by (intro roundReal_nonneg) simp
  ultimately have "roundReal (hi - lo) * roundReal (real i / real (m - 1)) \<le>
      roundReal (hi - lo) * roundReal (real j / real (m - 1))"
    by (rule mult_left_mono)
  then have "roundReal (roundReal (hi - lo) * roundReal (real i / real (m - 1))) \<le>
      roundReal (roundReal (hi - lo) * roundReal (real j / real (m - 1)))"
    by (rule roundReal_mono)
  then show ?thesis
    unfolding gridReal_def by (intro roundReal_mono) simp
qed

lemma gridReal_first: "rnd lo = Fin lo \<Longrightarrow> gridReal lo hi m 0 = lo"
  by (simp add: gridReal_def rnd_Fin_iff) (simp add: roundReal_def)

lemma gridReal_last:
  "2 \<le> m \<Longrightarrow> gridReal lo hi m (m - 1) = roundReal (lo + roundReal (hi - lo))"
  by (simp add: gridReal_def roundReal_1 roundReal_idem)

lemma gridX_last:
  assumes lohi: "lo \<le> hi" and dlo: "rnd lo = Fin lo" and dhi: "rnd hi = Fin hi"
    and blo: "\<bar>lo\<bar> \<le> 1024" and bhi: "\<bar>hi\<bar> \<le> 1024"
    and m: "2 \<le> m" "m \<le> 2 ^ 53"
  shows "gridX (Fin lo) (Fin hi) m (m - 1) = js_add (Fin lo) (js_sub (Fin hi) (Fin lo))"
proof -
  have "0 \<le> hi - lo" "hi - lo \<le> 2048"
    using lohi blo bhi by linarith+
  from rnd_between [OF this rnd_0 rnd_2048] obtain d where
    d: "rnd (hi - lo) = Fin d" "0 \<le> d" "d \<le> 2048"
    by blast
  have "- 1024 \<le> lo + d" "lo + d \<le> 4096"
    using blo d(2,3) by linarith+
  from rnd_between [OF this rnd_neg_1024 rnd_4096] obtain x where
    x: "rnd (lo + d) = Fin x"
    by blast
  have "js_sub (Fin hi) (Fin lo) = Fin d"
    using d(1) by (simp add: js_sub_def)
  then have "js_add (Fin lo) (js_sub (Fin hi) (Fin lo)) = Fin x"
    using x by simp
  moreover have "x = roundReal (lo + roundReal (hi - lo))"
    using d(1) x by (simp add: rnd_Fin_iff)
  moreover have "m - 1 < m"
    using m(1) by simp
  ultimately show ?thesis
    using gridX_Fin [OF lohi dlo dhi blo bhi m, of "m - 1"] gridReal_last [OF m(1), of lo hi]
    by simp
qed

text \<open>The bounds of the grid are the least and the greatest log value.\<close>

lemma finiteLogs_bounds:
  assumes ne: "filter validDatum dat \<noteq> []" and fl: "finiteLogs E dat"
  shows "\<exists>lo hi. xMinLog E dat = Fin lo \<and> xMaxLog E dat = Fin hi \<and> lo \<le> hi \<and>
           rnd lo = Fin lo \<and> rnd hi = Fin hi \<and> \<bar>lo\<bar> \<le> 1024 \<and> \<bar>hi\<bar> \<le> 1024 \<and>
           Fin lo \<in> set (map (Math_log E) (filter validDatum dat)) \<and>
           Fin hi \<in> set (map (Math_log E) (filter validDatum dat)) \<and>
           (\<forall>l\<in>set (map (Math_log E) (filter validDatum dat)).
              js_le (Fin lo) l \<and> js_le l (Fin hi))"
proof -
  define vs where "vs = map (\<lambda>d. finValue (Math_log E d)) (filter validDatum dat)"
  have logs: "map (Math_log E) (filter validDatum dat) = map Fin vs"
    using fl by (auto simp: vs_def finiteLogs_def)
  have vne: "vs \<noteq> []"
    using ne by (simp add: vs_def)
  have good: "rnd v = Fin v \<and> \<bar>v\<bar> \<le> 1024" if "v \<in> set vs" for v
    using that fl by (auto simp: vs_def finiteLogs_def)
  define lo where "lo = Min (set vs)"
  define hi where "hi = Max (set vs)"
  have lo: "lo \<in> set vs" and hi: "hi \<in> set vs"
    using vne by (simp_all add: lo_def hi_def)
  have le: "lo \<le> v \<and> v \<le> hi" if "v \<in> set vs" for v
    using that by (simp add: lo_def hi_def)
  have "xMinLog E dat = Fin lo" "xMaxLog E dat = Fin hi"
    by (simp_all add: xMinLog_def xMaxLog_def logs Math_min_Fin [OF vne] Math_max_Fin [OF vne]
        lo_def hi_def)
  moreover have "lo \<le> hi"
    using le [OF lo] by simp
  moreover have "\<forall>l\<in>set (map Fin vs). js_le (Fin lo) l \<and> js_le l (Fin hi)"
    using le by auto
  ultimately show ?thesis
    using good [OF lo] good [OF hi] lo hi unfolding logs
    by (intro exI [of _ lo] exI [of _ hi]) simp
qed

text \<open>
  C6, as amended. A series with no positive finite value gives the empty curve. For every
  other series \<open>computeKDE\<close> returns exactly \<open>m\<close> points, each \<open>xLog\<close> is the
  double that \<open>xMinLog + (xMaxLog - xMinLog) * (i / (m - 1))\<close> evaluates to, and
  \<open>xLinear = Math.exp(xLog)\<close> at each point. When moreover \<open>2 \<le> m \<le> 2 ^ 53\<close> and
  the logarithms of the data are finite doubles of magnitude at most \<open>1024\<close>, the
  bounds \<open>xMinLog\<close> and \<open>xMaxLog\<close> are the least and the greatest of these
  logarithms, the first \<open>xLog\<close> is exactly \<open>xMinLog\<close>, the last is the double
  \<open>xMinLog + (xMaxLog - xMinLog)\<close>, and the \<open>xLog\<close> values are finite and
  non-decreasing.
\<close>

theorem computeKDE_grid:
  "(let c = computeKDE E dat h m;
        logs = map (Math_log E) (filter validDatum dat);
        xMin = xMinLog E dat;
        xMax = xMaxLog E dat
    in (\<not> (\<exists>v. Fin v \<in> set dat \<and> 0 < v) \<longrightarrow> c = []) \<and>
       ((\<exists>v. Fin v \<in> set dat \<and> 0 < v) \<longrightarrow>
          length c = m \<and>
          (\<forall>i<m. xLog (c ! i) = gridX xMin xMax m i \<and>
                  xLinear (c ! i) = Math_exp E (xLog (c ! i))) \<and>
          (finiteLogs E dat \<and> 2 \<le> m \<and> m \<le> 2 ^ 53 \<longrightarrow>
             xMin \<in> set logs \<and> xMax \<in> set logs \<and>
             (\<forall>l\<in>set logs. js_le xMin l \<and> js_le l xMax) \<and>
             xLog (c ! 0) = xMin \<and>
             xLog (c ! (m - 1)) = js_add xMin (js_sub xMax xMin) \<and>
             (\<forall>i<m. isFinite (xLog (c ! i))) \<and>
             (\<forall>i. Suc i < m \<longrightarrow> js_le (xLog (c ! i)) (xLog (c ! Suc i))))))"
proof -
  let ?c = "computeKDE E dat h m"
  let ?logs = "map (Math_log E) (filter validDatum dat)"
  have empty: "?c = []" if "\<not> (\<exists>v. Fin v \<in> set dat \<and> 0 < v)"
    using that by (simp add: valid_filter computeKDE_empty)
  have full: "length ?c = m \<and>
          (\<forall>i<m. xLog (?c ! i) = gridX (xMinLog E dat) (xMaxLog E dat) m i \<and>
                  xLinear (?c ! i) = Math_exp E (xLog (?c ! i))) \<and>
          (finiteLogs E dat \<and> 2 \<le> m \<and> m \<le> 2 ^ 53 \<longrightarrow>
             xMinLog E dat \<in> set ?logs \<and> xMaxLog E dat \<in> set ?logs \<and>
             (\<forall>l\<in>set ?logs. js_le (xMinLog E dat) l \<and> js_le l (xMaxLog E dat)) \<and>
             xLog (?c ! 0) = xMinLog E dat \<and>
             xLog (?c ! (m - 1)) = js_add (xMinLog E dat) (js_sub (xMaxLog E dat) (xMinLog E dat)) \<and>
             (\<forall>i<m. isFinite (xLog (?c ! i))) \<and>
             (\<forall>i. Suc i < m \<longrightarrow> js_le (xLog (?c ! i)) (xLog (?c ! Suc i))))"
    if "\<exists>v. Fin v \<in> set dat \<and> 0 < v"
  proof -
    have ne: "filter validDatum dat \<noteq> []"
      using that by (simp add: valid_filter)
    have len: "length ?c = m"
      using ne by (simp add: computeKDE_length)
    have x: "xLog (?c ! i) = gridX (xMinLog E dat) (xMaxLog E dat) m i" if "i < m" for i
      by (simp add: computeKDE_nth [OF ne that] gridPoint_sel)
    have lin: "xLinear (?c ! i) = Math_exp E (xLog (?c ! i))" if "i < m" for i
      by (simp add: computeKDE_nth [OF ne that] gridPoint_sel)
    have grid: "xMinLog E dat \<in> set ?logs \<and> xMaxLog E dat \<in> set ?logs \<and>
             (\<forall>l\<in>set ?logs. js_le (xMinLog E dat) l \<and> js_le l (xMaxLog E dat)) \<and>
             xLog (?c ! 0) = xMinLog E dat \<and>
             xLog (?c ! (m - 1)) = js_add (xMinLog E dat) (js_sub (xMaxLog E dat) (xMinLog E dat)) \<and>
             (\<forall>i<m. isFinite (xLog (?c ! i))) \<and>
             (\<forall>i. Suc i < m \<longrightarrow> js_le (xLog (?c ! i)) (xLog (?c ! Suc i)))"
      if fl: "finiteLogs E dat" and m: "2 \<le> m" "m \<le> 2 ^ 53"
    proof -
      from finiteLogs_bounds [OF ne fl] obtain lo hi where
        b: "xMinLog E dat = Fin lo" "xMaxLog E dat = Fin hi" "lo \<le> hi"
          "rnd lo = Fin lo" "rnd hi = Fin hi" "\<bar>lo\<bar> \<le> 1024" "\<bar>hi\<bar> \<le> 1024"
          "Fin lo \<in> set ?logs" "Fin hi \<in> set ?logs"
          "\<forall>l\<in>set ?logs. js_le (Fin lo) l \<and> js_le l (Fin hi)"
        by blast
      have g: "gridX (Fin lo) (Fin hi) m i = Fin (gridReal lo hi m i)" if "i < m" for i
        using b(3-7) m that by (rule gridX_Fin)
      have first: "xLog (?c ! 0) = Fin lo"
        using m(1) by (simp add: x b(1,2) g gridReal_first [OF b(4)])
      have last: "xLog (?c ! (m - 1)) = js_add (Fin lo) (js_sub (Fin hi) (Fin lo))"
        using m(1) gridX_last [OF b(3-7) m] by (simp add: x b(1,2))
      have fin: "isFinite (xLog (?c ! i))" if "i < m" for i
        using that by (simp add: x b(1,2) g)
      have step: "js_le (xLog (?c ! i)) (xLog (?c ! Suc i))" if "Suc i < m" for i
        using that gridReal_mono [OF b(3), of i "Suc i" m] by (simp add: x b(1,2) g)
      show ?thesis
        unfolding b(1,2) using b(8-10) first last fin step by blast
    qed
    show ?thesis
      using len x lin grid by blast
  qed
  show ?thesis
    unfolding Let_def using empty full by blast
qed

text \<open>The values of the sample engine, and the two sample grids.\<close>

lemma sampleLog_values:
  "Math_log sampleEngine (Fin 2) = Fin (dbl 6243314768165359 (- 53))"
  "Math_log sampleEngine (Fin (dbl 3602879701896397 (- 55))) = Fin (dbl (- 5184960683398421) (- 51))"
  "Math_log sampleEngine (Fin (dbl 3082150994981683 (- 47))) = Fin (dbl 1737537508434703 (- 49))"
  by (simp_all add: sampleEngine_def dbl_def)

lemma gridData_valid: "filter validDatum gridData = gridData"
  by (simp add: gridData_def validDatum_def js_gt_def dbl_def)

lemma gridData_bounds:
  "xMinLog sampleEngine gridData = Fin (dbl (- 5184960683398421) (- 51))"
  "xMaxLog sampleEngine gridData = Fin (dbl 1737537508434703 (- 49))"
  unfolding xMinLog_def xMaxLog_def gridData_valid
  by (simp_all add: gridData_def sampleEngine_def Math_min_def Math_max_def dbl_def)

lemma gridData_span:
  "js_sub (Fin (dbl 1737537508434703 (- 49))) (Fin (dbl (- 5184960683398421) (- 51))) =
   Fin (dbl 6067555358568616 (- 50))"
proof -
  have "rnd (dbl 1737537508434703 (- 49) - dbl (- 5184960683398421) (- 51)) =
      Fin (dbl 6067555358568616 (- 50))"
    by (subst rnd_at [where e = 2]) (simp_all add: dbl_def rhe_def Let_def)
  then show ?thesis
    by (simp add: js_sub_def)
qed

lemma gridData_last:
  "js_add (Fin (dbl (- 5184960683398421) (- 51))) (Fin (dbl 6067555358568616 (- 50))) =
   Fin (dbl 6950150033738811 (- 51))"
proof -
  have "rnd (dbl (- 5184960683398421) (- 51) + dbl 6067555358568616 (- 50)) =
      Fin (dbl 6950150033738811 (- 51))"
    by (subst rnd_at [where e = 1]) (simp_all add: dbl_def rhe_def Let_def)
  then show ?thesis
    by simp
qed

lemma gridX_eval:
  assumes "js_sub (Fin (real m)) (Fin 1) = Fin M" "M \<noteq> 0"
    and "rnd (real i / M) = Fin t"
    and "js_sub (Fin hi) (Fin lo) = Fin d"
    and "rnd (d * t) = Fin p"
    and "rnd (lo + p) = Fin x"
  shows "gridX (Fin lo) (Fin hi) m i = Fin x"
  using assms(2,3,5,6) unfolding gridX_def assms(1,4) by simp

lemma four_minus_one: "js_sub (Fin (real 4)) (Fin 1) = Fin 3"
  by (simp add: js_sub_def rnd_numeral)

lemma five_minus_one: "js_sub (Fin (real 5)) (Fin 1) = Fin 4"
  by (simp add: js_sub_def rnd_numeral)

lemma octaveData_valid: "filter validDatum octaveData = octaveData"
  by (simp add: octaveData_def validDatum_def js_gt_def)

lemma octaveData_bounds:
  "xMinLog sampleEngine octaveData = Fin 0"
  "xMaxLog sampleEngine octaveData = Fin (dbl 6243314768165359 (- 53))"
  unfolding xMinLog_def xMaxLog_def octaveData_valid
  by (simp_all add: octaveData_def sampleEngine_def Math_min_def Math_max_def dbl_def)

lemma octaveData_span:
  "js_sub (Fin (dbl 6243314768165359 (- 53))) (Fin 0) = Fin (dbl 6243314768165359 (- 53))"
  by (simp add: js_sub_def rnd_dbl)

lemma octaveData_products:
  "rnd (dbl 6243314768165359 (- 53) * dbl 6004799503160661 (- 54)) =
     Fin (dbl 8324419690887145 (- 55))"
  "rnd (dbl 6243314768165359 (- 53) * dbl 6004799503160661 (- 53)) =
     Fin (dbl 8324419690887145 (- 54))"
  by (subst rnd_at [where e = "- 3"], simp_all add: dbl_def rhe_def Let_def)
    (subst rnd_at [where e = "- 2"], simp_all add: dbl_def rhe_def Let_def)

lemma octaveData_grid:
  "gridX (Fin 0) (Fin (dbl 6243314768165359 (- 53))) 4 0 = Fin 0"
  "gridX (Fin 0) (Fin (dbl 6243314768165359 (- 53))) 4 1 = Fin (dbl 8324419690887145 (- 55))"
  "gridX (Fin 0) (Fin (dbl 6243314768165359 (- 53))) 4 2 = Fin (dbl 8324419690887145 (- 54))"
  "gridX (Fin 0) (Fin (dbl 6243314768165359 (- 53))) 4 3 = Fin (dbl 6243314768165359 (- 53))"
proof -
  show "gridX (Fin 0) (Fin (dbl 6243314768165359 (- 53))) 4 0 = Fin 0"
    by (rule gridX_eval [OF four_minus_one _ _ octaveData_span, where t = 0 and p = 0])
      simp_all
  show "gridX (Fin 0) (Fin (dbl 6243314768165359 (- 53))) 4 1 = Fin (dbl 8324419690887145 (- 55))"
    by (rule gridX_eval [OF four_minus_one _ _ octaveData_span octaveData_products(1)])
      (simp_all add: rnd_thirds rnd_dbl)
  show "gridX (Fin 0) (Fin (dbl 6243314768165359 (- 53))) 4 2 = Fin (dbl 8324419690887145 (- 54))"
    by (rule gridX_eval [OF four_minus_one _ _ octaveData_span octaveData_products(2)])
      (simp_all add: rnd_thirds rnd_dbl)
  show "gridX (Fin 0) (Fin (dbl 6243314768165359 (- 53))) 4 3 = Fin (dbl 6243314768165359 (- 53))"
    by (rule gridX_eval [OF four_minus_one _ _ octaveData_span,
          where t = 1 and p = "dbl 6243314768165359 (- 53)"])
      (simp_all add: rnd_dbl)
qed

lemma gridData_grid_last:
  "gridX (Fin (dbl (- 5184960683398421) (- 51))) (Fin (dbl 1737537508434703 (- 49))) 5 4 =
     Fin (dbl 6950150033738811 (- 51))"
proof -
  have "rnd (dbl (- 5184960683398421) (- 51) + dbl 6067555358568616 (- 50)) =
      Fin (dbl 6950150033738811 (- 51))"
    using gridData_last by simp
  then show ?thesis
    by (rule gridX_eval [OF five_minus_one _ _ gridData_span, where t = 1, rotated 3])
      (simp_all add: rnd_dbl)
qed

lemma gridData_nonempty: "filter validDatum gridData \<noteq> []"
  by (simp add: gridData_valid) (simp add: gridData_def)

lemma octaveData_nonempty: "filter validDatum octaveData \<noteq> []"
  by (simp add: octaveData_valid) (simp add: octaveData_def)

text \<open>
  The claim C6 as stated fails. On the series \<open>[0.1, 21.9]\<close> with five points the
  last \<open>xLog\<close> is \<open>3.0864866368224546\<close>, one unit in the last place below the
  greatest logarithm \<open>3.086486636822455\<close>: the grid does not span the interval
  exactly. On the series \<open>[1, 2]\<close> with four points the first step is smaller than
  the last: the grid is not evenly spaced. With \<open>m = 1\<close> the single \<open>xLog\<close> is
  NaN, and a series with no positive finite value gives no point at all.
\<close>

theorem computeKDE_grid_counterexample:
  "xMaxLog sampleEngine gridData = Fin (dbl 1737537508434703 (- 49)) \<and>
   xLog (computeKDE sampleEngine gridData (Fin 1) 5 ! 4) = Fin (dbl 6950150033738811 (- 51)) \<and>
   dbl 6950150033738811 (- 51) < dbl 1737537508434703 (- 49) \<and>
   xLog (computeKDE sampleEngine octaveData (Fin 1) 4 ! 0) = Fin 0 \<and>
   xLog (computeKDE sampleEngine octaveData (Fin 1) 4 ! 1) = Fin (dbl 8324419690887145 (- 55)) \<and>
   xLog (computeKDE sampleEngine octaveData (Fin 1) 4 ! 2) = Fin (dbl 8324419690887145 (- 54)) \<and>
   xLog (computeKDE sampleEngine octaveData (Fin 1) 4 ! 3) = Fin (dbl 6243314768165359 (- 53)) \<and>
   dbl 8324419690887145 (- 55) - 0 <
     dbl 6243314768165359 (- 53) - dbl 8324419690887145 (- 54) \<and>
   xLog (computeKDE sampleEngine octaveData (Fin 1) 1 ! 0) = NaN \<and>
   computeKDE sampleEngine [Fin 0, Fin (- 1), NaN] (Fin 1) 200 = []"
proof -
  have "xLog (computeKDE sampleEngine gridData (Fin 1) 5 ! 4) = Fin (dbl 6950150033738811 (- 51))"
    by (simp add: computeKDE_nth [OF gridData_nonempty] gridPoint_sel gridData_bounds
        gridData_grid_last)
  moreover have "xLog (computeKDE sampleEngine octaveData (Fin 1) 4 ! 0) = Fin 0"
    "xLog (computeKDE sampleEngine octaveData (Fin 1) 4 ! 1) = Fin (dbl 8324419690887145 (- 55))"
    "xLog (computeKDE sampleEngine octaveData (Fin 1) 4 ! 2) = Fin (dbl 8324419690887145 (- 54))"
    "xLog (computeKDE sampleEngine octaveData (Fin 1) 4 ! 3) = Fin (dbl 6243314768165359 (- 53))"
    by (simp_all add: computeKDE_nth [OF octaveData_nonempty] gridPoint_sel octaveData_bounds
        octaveData_grid octaveData_grid(2) [unfolded One_nat_def])
  moreover have "xLog (computeKDE sampleEngine octaveData (Fin 1) 1 ! 0) = NaN"
    by (simp add: computeKDE_nth [OF octaveData_nonempty] gridPoint_sel gridX_single)
  moreover have "computeKDE sampleEngine [Fin 0, Fin (- 1), NaN] (Fin 1) 200 = []"
    by (simp add: computeKDE_empty validDatum_def js_gt_def)
  moreover have "dbl 6950150033738811 (- 51) < dbl 1737537508434703 (- 49)"
    "dbl 8324419690887145 (- 55) - 0 <
       dbl 6243314768165359 (- 53) - dbl 8324419690887145 (- 54)"
    by (simp_all add: dbl_def)
  ultimately show ?thesis
    by (simp only: gridData_bounds simp_thms)
qed

lemma gridData_finiteLogs: "finiteLogs sampleEngine gridData"
proof -
  have "rnd (dbl (- 5184960683398421) (- 51)) = Fin (dbl (- 5184960683398421) (- 51))"
    "rnd (dbl 1737537508434703 (- 49)) = Fin (dbl 1737537508434703 (- 49))"
    by (simp_all add: rnd_dbl)
  moreover have "\<bar>dbl (- 5184960683398421) (- 51)\<bar> \<le> 1024"
    "\<bar>dbl 1737537508434703 (- 49)\<bar> \<le> 1024"
    by (simp_all add: dbl_def)
  ultimately show ?thesis
    unfolding finiteLogs_def gridData_valid
    by (simp add: gridData_def sampleLog_values del: Math_log.simps)
qed

lemma gridData_positive: "\<exists>v. Fin v \<in> set gridData \<and> 0 < v"
  using gridData_nonempty by (simp add: valid_filter)

theorem computeKDE_grid_witness:
  "(\<exists>v. Fin v \<in> set gridData \<and> 0 < v) \<and>
   finiteLogs sampleEngine gridData \<and>
   length (computeKDE sampleEngine gridData (Fin 1) 5) = 5 \<and>
   xLog (computeKDE sampleEngine gridData (Fin 1) 5 ! 0) =
     Fin (dbl (- 5184960683398421) (- 51)) \<and>
   xLog (computeKDE sampleEngine gridData (Fin 1) 5 ! 4) =
     Fin (dbl 6950150033738811 (- 51)) \<and>
   js_le (xLog (computeKDE sampleEngine gridData (Fin 1) 5 ! 0))
     (xLog (computeKDE sampleEngine gridData (Fin 1) 5 ! 1)) \<and>
   js_le (xLog (computeKDE sampleEngine gridData (Fin 1) 5 ! 3))
     (xLog (computeKDE sampleEngine gridData (Fin 1) 5 ! 4)) \<and>
   xLinear (computeKDE sampleEngine gridData (Fin 1) 5 ! 4) =
     Math_exp sampleEngine (Fin (dbl 6950150033738811 (- 51))) \<and>
   computeKDE sampleEngine [Fin 0, Fin (- 1), NaN] (Fin 1) 5 = []"
proof -
  have none: "\<not> (\<exists>v. Fin v \<in> set [Fin 0, Fin (- 1), NaN] \<and> 0 < v)"
    by auto
  have m: "(2::nat) \<le> 5" "(5::nat) \<le> 2 ^ 53" "(4::nat) < 5" "(0::nat) < 5"
    "Suc 0 < 5" "Suc 3 < 5" "Suc 3 = 4" "(5::nat) - 1 = 4"
    by simp_all
  show ?thesis
    using computeKDE_grid [of sampleEngine gridData "Fin 1" 5]
      computeKDE_grid [of sampleEngine "[Fin 0, Fin (- 1), NaN]" "Fin 1" 5]
      gridData_positive gridData_finiteLogs none m
    unfolding Let_def gridData_bounds gridData_span gridData_last
    by (metis One_nat_def)
qed

subsection \<open>Zero and negative bandwidth\<close>

lemma div_by_zero: "js_div z (Fin 0) = NaN \<or> js_div z (Fin 0) = PInf \<or> js_div z (Fin 0) = NInf"
  by (cases z) (simp_all add: inf_of_sign_def)

lemma kernelTerm_zero_bandwidth:
  "kernelTerm E x (Fin 0) d = Fin 0 \<or> kernelTerm E x (Fin 0) d = NaN"
  using div_by_zero [of "js_sub x d"]
  by (auto simp: kernelTerm_def Let_def inf_of_sign_def)

lemma foldl_kernel_zero_bandwidth:
  "acc = Fin 0 \<or> acc = NaN \<Longrightarrow>
   foldl (\<lambda>dens d. js_add dens (kernelTerm E x (Fin 0) d)) acc ds = Fin 0 \<or>
   foldl (\<lambda>dens d. js_add dens (kernelTerm E x (Fin 0) d)) acc ds = NaN"
proof (induction ds arbitrary: acc)
  case Nil
  then show ?case by simp
next
  case (Cons d ds)
  have "js_add acc (kernelTerm E x (Fin 0) d) = Fin 0 \<or>
        js_add acc (kernelTerm E x (Fin 0) d) = NaN"
    using Cons.prems kernelTerm_zero_bandwidth [of E x d] by auto
  then show ?case
    using Cons.IH by simp
qed

lemma kernelSum_zero_bandwidth:
  "kernelSum E x (Fin 0) ds = Fin 0 \<or> kernelSum E x (Fin 0) ds = NaN"
  unfolding kernelSum_def by (rule foldl_kernel_zero_bandwidth) simp

lemma zero_times: "js_mul (Fin 0) s = Fin 0 \<or> js_mul (Fin 0) s = NaN"
  by (cases s) simp_all

lemma normalization_zero_bandwidth:
  "normalization E n (Fin 0) = PInf \<or> normalization E n (Fin 0) = NaN"
  using zero_times [of "Math_sqrt E (js_mul (Fin 2) Math_PI)"]
  by (auto simp: normalization_def inf_of_sign_def)

lemma density_zero_bandwidth:
  "js_mul (kernelSum E x (Fin 0) ds) (normalization E n (Fin 0)) = NaN"
  using kernelSum_zero_bandwidth [of E x ds] normalization_zero_bandwidth [of E n]
  by auto

text \<open>
  C1, as amended. \<open>computeKDE\<close> does not validate the bandwidth and has no failure
  path: for every bandwidth \<open>h \<le> 0\<close> and every series with at least one positive
  finite value it returns a curve of exactly \<open>numPoints\<close> points. With \<open>h = 0\<close>
  every density is NaN.
\<close>

theorem computeKDE_nonpositive_bandwidth:
  assumes "js_le h (Fin 0)" and "\<exists>v. Fin v \<in> set dat \<and> 0 < v"
  shows "length (computeKDE E dat h m) = m \<and>
         (h = Fin 0 \<longrightarrow> (\<forall>p\<in>set (computeKDE E dat h m). y p = NaN))"
proof -
  have ne: "filter validDatum dat \<noteq> []"
    using assms(2) by (simp add: valid_filter)
  have len: "length (computeKDE E dat h m) = m"
    using ne by (simp add: computeKDE_length)
  have zero: "\<forall>p\<in>set (computeKDE E dat h m). y p = NaN" if "h = Fin 0"
    unfolding that computeKDE_eq [OF ne] by (simp add: gridPoint_sel density_zero_bandwidth)
  show ?thesis
    using len zero by blast
qed

lemma three_minus_one: "js_sub (Fin (real 3)) (Fin 1) = Fin 2"
  by (simp add: js_sub_def rnd_numeral)

lemma unit_grid:
  "gridX (Fin 0) (Fin 0) 3 0 = Fin 0"
  "gridX (Fin 0) (Fin 0) 3 (Suc 0) = Fin 0"
  "gridX (Fin 0) (Fin 0) 3 (Suc (Suc 0)) = Fin 0"
proof -
  have s: "js_sub (Fin 0) (Fin 0) = Fin 0"
    by (simp add: js_sub_def)
  show "gridX (Fin 0) (Fin 0) 3 0 = Fin 0"
    by (rule gridX_eval [OF three_minus_one _ _ s, where t = 0 and p = 0]) simp_all
  show "gridX (Fin 0) (Fin 0) 3 (Suc 0) = Fin 0"
    by (rule gridX_eval [OF three_minus_one _ _ s, where t = "1 / 2" and p = 0])
      (simp_all add: rnd_half)
  show "gridX (Fin 0) (Fin 0) 3 (Suc (Suc 0)) = Fin 0"
    by (rule gridX_eval [OF three_minus_one _ _ s, where t = 1 and p = 0]) simp_all
qed

lemma unit_bounds:
  "xMinLog E [Fin 1] = Fin 0" "xMaxLog E [Fin 1] = Fin 0"
  by (simp_all add: xMinLog_def xMaxLog_def validDatum_def js_gt_def Math_min_def Math_max_def)

text \<open>
  The claim C1 as stated fails: with \<open>h = 0\<close> the call returns a curve of three points
  whose densities are NaN.
\<close>

theorem computeKDE_nonpositive_bandwidth_counterexample:
  "js_le (Fin 0) (Fin 0) \<and>
   computeKDE sampleEngine [Fin 1] (Fin 0) 3 =
     [\<lparr>xLog = Fin 0, xLinear = Fin 1, y = NaN\<rparr>,
      \<lparr>xLog = Fin 0, xLinear = Fin 1, y = NaN\<rparr>,
      \<lparr>xLog = Fin 0, xLinear = Fin 1, y = NaN\<rparr>]"
proof -
  have ne: "filter validDatum [Fin 1] \<noteq> []"
    by (simp add: validDatum_def js_gt_def)
  have "gridPoint sampleEngine (Fin 0) (Fin 0) 3 (Fin 0) (normalization sampleEngine n (Fin 0))
      logs i = \<lparr>xLog = Fin 0, xLinear = Fin 1, y = NaN\<rparr>"
    if "gridX (Fin 0) (Fin 0) 3 i = Fin 0" for n logs i
    by (simp add: gridPoint_def Let_def that density_zero_bandwidth)
  moreover have "[0..<3] = [0, Suc 0, Suc (Suc 0)]"
    by (simp add: numeral_3_eq_3)
  ultimately show ?thesis
    by (simp add: computeKDE_eq [OF ne] unit_bounds unit_grid validDatum_def js_gt_def)
qed

theorem computeKDE_nonpositive_bandwidth_witness:
  "js_le (Fin (- 1)) (Fin 0) \<and> js_le (Fin 0) (Fin 0) \<and>
   (\<exists>v. Fin v \<in> set [Fin 1, Fin 2] \<and> 0 < v) \<and>
   length (computeKDE sampleEngine [Fin 1, Fin 2] (Fin (- 1)) 2) = 2 \<and>
   map y (computeKDE sampleEngine [Fin 1, Fin 2] (Fin 0) 2) = [NaN, NaN]"
proof -
  have h: "js_le (Fin (- 1)) (Fin 0)" "js_le (Fin 0) (Fin 0)"
    by simp_all
  have d: "\<exists>v. Fin v \<in> set [Fin 1, Fin 2] \<and> 0 < v"
    by (rule exI [of _ 1]) simp
  show ?thesis
    using h d computeKDE_nonpositive_bandwidth [OF h(1) d, of sampleEngine 2]
      computeKDE_nonpositive_bandwidth [OF h(2) d, of sampleEngine 2]
    by (auto simp: length_Suc_conv numeral_2_eq_2)
qed

section \<open>Identical consecutive timestamps\<close>

lemma stateAfter_Suc:
  "k < length pts \<Longrightarrow> stateAfter P D pts (Suc k) = mainStep P D k (pts ! k) (stateAfter P D pts k)"
  by (simp add: stateAfter_def take_Suc_conv_app_nth mainLoop_append)

lemma stateAfter_length: "stateAfter P D pts (length pts) = afterMainLoop P D pts"
  by (simp add: stateAfter_def afterMainLoop_def)

lemma afterMainLoop_split:
  "afterMainLoop P D pts = mainLoop P D k (drop k pts) (stateAfter P D pts k)" if "k \<le> length pts"
proof -
  have "mainLoop P D 0 (take k pts @ drop k pts) s =
        mainLoop P D k (drop k pts) (mainLoop P D 0 (take k pts) s)" for s
    using that by (simp only: mainLoop_append) simp
  then show ?thesis
    by (simp add: afterMainLoop_def stateAfter_def)
qed

lemma mainStep_anchor_valid:
  "parseTimestamp P pt = Some t \<Longrightarrow>
   previousTimestampMs (mainStep P D i pt s) = Some t \<and>
   previousTimestampIndex (mainStep P D i pt s) = Some i"
  by (simp add: mainStep_defs split: option.splits prod.splits)

lemma mainStep_anchor_none:
  "parseTimestamp P pt = None \<Longrightarrow>
   previousTimestampMs (mainStep P D i pt s) = previousTimestampMs s \<and>
   previousTimestampIndex (mainStep P D i pt s) = previousTimestampIndex s"
  by (simp add: mainStep_defs split: option.splits prod.splits)

lemma stateAfter_anchor:
  assumes "parseTimestamp P (pts ! j) = Some t"
    and "\<forall>m. j < m \<and> m < k \<longrightarrow> parseTimestamp P (pts ! m) = None"
    and "j < k" "k \<le> length pts"
  shows "previousTimestampMs (stateAfter P D pts k) = Some t \<and>
         previousTimestampIndex (stateAfter P D pts k) = Some j"
  using assms(2-)
proof (induction k)
  case 0
  then show ?case by simp
next
  case (Suc k)
  then have k: "k < length pts" by simp
  show ?case
  proof (cases "k = j")
    case True
    then show ?thesis
      using assms(1) k by (simp add: stateAfter_Suc mainStep_anchor_valid)
  next
    case False
    with Suc.prems have jk: "j < k" and none: "parseTimestamp P (pts ! k) = None"
      by auto
    from Suc.prems have "\<forall>m. j < m \<and> m < k \<longrightarrow> parseTimestamp P (pts ! m) = None"
      by auto
    with Suc.IH jk k have "previousTimestampMs (stateAfter P D pts k) = Some t \<and>
         previousTimestampIndex (stateAfter P D pts k) = Some j"
      by simp
    then show ?thesis
      using k none by (simp add: stateAfter_Suc mainStep_anchor_none)
  qed
qed

lemma mainStep_identical:
  assumes "parseTimestamp P pt = Some t" "previousTimestampMs s = Some t"
    "previousTimestampIndex s = Some j"
  shows "timeDeltasMs (mainStep P D i pt s) = timeDeltasMs s"
    "rejectedTimestampPairsDeltaLeqZero (mainStep P D i pt s) =
       rejectedTimestampPairsDeltaLeqZero s + 1"
    "nonPositiveTimeDeltaEvents (mainStep P D i pt s) =
       nonPositiveTimeDeltaEvents s @ [\<lparr>index = i, prevIndex = Some j, delta = 0\<rparr>]"
  using assms by (simp_all add: mainStep_defs split: option.splits prod.splits)

lemma mainStep_events:
  "nonPositiveTimeDeltaEvents (mainStep P D i pt s) = nonPositiveTimeDeltaEvents s \<or>
   (\<exists>e. index e = i \<and>
        nonPositiveTimeDeltaEvents (mainStep P D i pt s) = nonPositiveTimeDeltaEvents s @ [e])"
  by (simp add: mainStep_defs split: option.splits prod.splits)

lemma mainLoop_events:
  "\<exists>es. nonPositiveTimeDeltaEvents (mainLoop P D i xs s) = nonPositiveTimeDeltaEvents s @ es \<and>
        (\<forall>e\<in>set es. i \<le> index e \<and> index e < i + length xs)"
proof (induction xs arbitrary: i s)
  case Nil
  then show ?case by simp
next
  case (Cons pt xs)
  from Cons.IH [of "Suc i" "mainStep P D i pt s"] obtain es where
    es: "nonPositiveTimeDeltaEvents (mainLoop P D (Suc i) xs (mainStep P D i pt s)) =
           nonPositiveTimeDeltaEvents (mainStep P D i pt s) @ es"
      "\<forall>e\<in>set es. Suc i \<le> index e \<and> index e < Suc i + length xs"
    by blast
  from mainStep_events [of P D i pt s] show ?case
  proof
    assume "nonPositiveTimeDeltaEvents (mainStep P D i pt s) = nonPositiveTimeDeltaEvents s"
    with es show ?thesis
      by (intro exI [of _ es]) auto
  next
    assume "\<exists>e. index e = i \<and>
        nonPositiveTimeDeltaEvents (mainStep P D i pt s) = nonPositiveTimeDeltaEvents s @ [e]"
    then obtain e where "index e = i"
      "nonPositiveTimeDeltaEvents (mainStep P D i pt s) = nonPositiveTimeDeltaEvents s @ [e]"
      by blast
    with es show ?thesis
      by (intro exI [of _ "e # es"]) auto
  qed
qed

lemma stateAfter_events_bound:
  "\<forall>e\<in>set (nonPositiveTimeDeltaEvents (stateAfter P D pts k)). index e < k"
proof -
  from mainLoop_events [of P D 0 "take k pts" "initial_audit\<lparr>hasValidTimestamps := presenceScan P pts\<rparr>"]
  show ?thesis
    by (auto simp: stateAfter_def initial_audit_def)
qed

lemma mainStep_rejected_events:
  "rejectedTimestampPairsDeltaLeqZero s = length (nonPositiveTimeDeltaEvents s) \<Longrightarrow>
   rejectedTimestampPairsDeltaLeqZero (mainStep P D i pt s) =
     length (nonPositiveTimeDeltaEvents (mainStep P D i pt s))"
  by (simp add: mainStep_defs split: option.splits prod.splits)

lemma afterMainLoop_rejected_events:
  "rejectedTimestampPairsDeltaLeqZero (afterMainLoop P D pts) =
     length (nonPositiveTimeDeltaEvents (afterMainLoop P D pts))"
  unfolding afterMainLoop_def
  by (rule mainLoop_inv[where I = "\<lambda>s. rejectedTimestampPairsDeltaLeqZero s =
       length (nonPositiveTimeDeltaEvents s)"])
     (simp_all add: mainStep_rejected_events initial_audit_def)

text \<open>
  C8. Let points \<open>j < i\<close> carry the same parseable timestamp with no timestamped point
  between them (a pair of consecutive timestamped points with \<open>delta = 0\<close>). Then the
  iteration at \<open>i\<close> leaves the time-delta series unchanged, increments
  \<open>rejectedTimestampPairsDeltaLeqZero\<close> by exactly one and appends exactly the record
  \<open>{index = i, prevIndex = j, delta = 0}\<close> to the event log; in the result that record
  occurs exactly once in the log, the counter equals the length of the log, and \<open>0\<close> is
  not in the time-delta series.
\<close>

theorem identical_timestamps_rejected:
  assumes "j < i" and "i < length pts"
    and "parseTimestamp P (pts ! j) = Some t"
    and "parseTimestamp P (pts ! i) = Some t"
    and "\<forall>k. j < k \<and> k < i \<longrightarrow> parseTimestamp P (pts ! k) = None"
  shows "(let before = stateAfter P D pts i;
              after = stateAfter P D pts (Suc i);
              r = auditSampling P D pts;
              ev = \<lparr>index = i, prevIndex = Some j, delta = 0\<rparr>
          in timeDeltasMs after = timeDeltasMs before \<and>
             rejectedTimestampPairsDeltaLeqZero after =
               rejectedTimestampPairsDeltaLeqZero before + 1 \<and>
             nonPositiveTimeDeltaEvents after = nonPositiveTimeDeltaEvents before @ [ev] \<and>
             count_list (nonPositiveTimeDeltaEvents r) ev = 1 \<and>
             rejectedTimestampPairsDeltaLeqZero r = length (nonPositiveTimeDeltaEvents r) \<and>
             0 \<notin> set (timeDeltasMs r))"
proof -
  let ?ev = "\<lparr>index = i, prevIndex = Some j, delta = 0\<rparr>"
  let ?b = "stateAfter P D pts i"
  let ?a = "stateAfter P D pts (Suc i)"
  have anchor: "previousTimestampMs ?b = Some t" "previousTimestampIndex ?b = Some j"
    using stateAfter_anchor [OF assms(3) assms(5) assms(1), of D] assms(2) by simp_all
  have a: "?a = mainStep P D i (pts ! i) ?b"
    by (rule stateAfter_Suc [OF assms(2)])
  have step: "timeDeltasMs ?a = timeDeltasMs ?b"
    "rejectedTimestampPairsDeltaLeqZero ?a = rejectedTimestampPairsDeltaLeqZero ?b + 1"
    "nonPositiveTimeDeltaEvents ?a = nonPositiveTimeDeltaEvents ?b @ [?ev]"
    unfolding a by (rule mainStep_identical [OF assms(4) anchor])+
  from mainLoop_events [of P D "Suc i" "drop (Suc i) pts" ?a] obtain es where
    es: "nonPositiveTimeDeltaEvents (mainLoop P D (Suc i) (drop (Suc i) pts) ?a) =
           nonPositiveTimeDeltaEvents ?a @ es" "\<forall>e\<in>set es. Suc i \<le> index e"
    by auto
  have final: "nonPositiveTimeDeltaEvents (afterMainLoop P D pts) =
      nonPositiveTimeDeltaEvents ?b @ [?ev] @ es"
    using afterMainLoop_split [of "Suc i" pts P D] assms(2) es(1) step(3) by simp
  have "?ev \<notin> set (nonPositiveTimeDeltaEvents ?b)"
    using stateAfter_events_bound [of P D pts i] by auto
  moreover have "?ev \<notin> set es"
    using es(2) by auto
  ultimately have cnt: "count_list (nonPositiveTimeDeltaEvents (afterMainLoop P D pts)) ?ev = 1"
    unfolding final by (simp add: count_list_0_iff)
  have nz: "0 \<notin> set (timeDeltasMs (afterMainLoop P D pts))"
    using afterMainLoop_timeDeltas_pos [of P D pts] by auto
  show ?thesis
    unfolding Let_def auditSampling_fields
    using step cnt nz afterMainLoop_rejected_events [of P D pts] by blast
qed

theorem identical_timestamps_rejected_witness:
  "(1::nat) < 3 \<and> 3 < length sampleTrack \<and>
   parseTimestamp sampleParse (sampleTrack ! 1) = Some 1704067201000 \<and>
   parseTimestamp sampleParse (sampleTrack ! 3) = Some 1704067201000 \<and>
   parseTimestamp sampleParse (sampleTrack ! 2) = None \<and>
   timeDeltasMs (stateAfter sampleParse haversineDistance sampleTrack 4) =
     timeDeltasMs (stateAfter sampleParse haversineDistance sampleTrack 3) \<and>
   rejectedTimestampPairsDeltaLeqZero (stateAfter sampleParse haversineDistance sampleTrack 4) =
     rejectedTimestampPairsDeltaLeqZero
       (stateAfter sampleParse haversineDistance sampleTrack 3) + 1 \<and>
   count_list (nonPositiveTimeDeltaEvents
                 (auditSampling sampleParse haversineDistance sampleTrack))
     \<lparr>index = 3, prevIndex = Some 1, delta = 0\<rparr> = 1 \<and>
   timeDeltasMs (auditSampling sampleParse haversineDistance sampleTrack) = [1000, 4000]"
proof -
  have ts: "parseTimestamp sampleParse (sampleTrack ! 1) = Some 1704067201000"
    "parseTimestamp sampleParse (sampleTrack ! 3) = Some 1704067201000"
    "parseTimestamp sampleParse (sampleTrack ! 2) = None"
    by (simp_all add: parseTimestamp_def sampleTrack_def sampleParse_def)
  have gap: "\<forall>k. 1 < k \<and> k < 3 \<longrightarrow> parseTimestamp sampleParse (sampleTrack ! k) = None"
  proof (intro allI impI)
    fix k :: nat
    assume "1 < k \<and> k < 3"
    then have "k = 2" by arith
    then show "parseTimestamp sampleParse (sampleTrack ! k) = None"
      by (simp add: ts)
  qed
  have len: "3 < length sampleTrack"
    by (simp add: length_sampleTrack)
  have lt: "(1::nat) < 3"
    by simp
  show ?thesis
    using ts len
      identical_timestamps_rejected [OF lt len ts(1) ts(2) gap, of haversineDistance]
    by (simp add: Let_def auditSampling_sampleTrack)
qed

section \<open>The joint-pair pass\<close>

lemma jointStep_none:
  assumes "parseTimestamp P pt = None"
  shows "timeDistancePairs (jointStep P D pt s) = timeDistancePairs s"
    "prevPoint (jointStep P D pt s) = prevPoint s"
    "prevTimestampMs (jointStep P D pt s) = prevTimestampMs s"
  using assms by (simp_all add: jointStep_def Let_def split: option.splits prod.splits)

lemma jointStep_first:
  assumes "parseTimestamp P pt = Some cur" "prevTimestampMs s = None"
  shows "timeDistancePairs (jointStep P D pt s) = timeDistancePairs s"
    "prevPoint (jointStep P D pt s) = Some (lat pt, lon pt)"
    "prevTimestampMs (jointStep P D pt s) = Some cur"
  using assms by (simp_all add: jointStep_def Let_def split: option.splits prod.splits)

lemma jointStep_pair:
  assumes "parseTimestamp P pt = Some cur" "prevTimestampMs s = Some tq"
    "prevPoint s = Some (la, lo)"
  shows "timeDistancePairs (jointStep P D pt s) =
           timeDistancePairs s @
           (if 0 < real_of_int (cur - tq) / 1000 \<and> validDistance (D la lo (lat pt) (lon pt))
            then [\<lparr>dtSec = real_of_int (cur - tq) / 1000,
                   ddMeters = D la lo (lat pt) (lon pt)\<rparr>]
            else [])"
    "prevPoint (jointStep P D pt s) = Some (lat pt, lon pt)"
    "prevTimestampMs (jointStep P D pt s) = Some cur"
  using assms by (simp_all add: jointStep_def Let_def split: option.splits prod.splits)

lemma jointLoop_pairs_anchored:
  assumes "prevPoint s = Some (lat q, lon q)" "prevTimestampMs s = Some tq"
    "parseTimestamp P q = Some tq"
  shows "timeDistancePairs (jointLoop P D pts s) =
           timeDistancePairs s @ spec_jointPairs P D (q # timestampedPoints P pts)"
  using assms
proof (induction pts arbitrary: s q tq)
  case Nil
  then show ?case by (simp add: timestampedPoints_def)
next
  case (Cons pt pts)
  show ?case
  proof (cases "parseTimestamp P pt")
    case None
    then show ?thesis
      using Cons.IH [of "jointStep P D pt s" q tq] Cons.prems
      by (simp add: jointStep_none timestampedPoints_def)
  next
    case (Some cur)
    have "timeDistancePairs (jointLoop P D pts (jointStep P D pt s)) =
          timeDistancePairs (jointStep P D pt s) @
          spec_jointPairs P D (pt # timestampedPoints P pts)"
      by (rule Cons.IH) (simp_all add: jointStep_pair [OF Some Cons.prems(2) Cons.prems(1)] Some)
    then show ?thesis
      using Some Cons.prems
      by (simp add: jointStep_pair [OF Some Cons.prems(2) Cons.prems(1)] timestampedPoints_def
          Let_def)
  qed
qed

lemma jointLoop_pairs_fresh:
  assumes "prevPoint s = None" "prevTimestampMs s = None"
  shows "timeDistancePairs (jointLoop P D pts s) =
           timeDistancePairs s @ spec_jointPairs P D (timestampedPoints P pts)"
  using assms
proof (induction pts arbitrary: s)
  case Nil
  then show ?case by (simp add: timestampedPoints_def)
next
  case (Cons pt pts)
  show ?case
  proof (cases "parseTimestamp P pt")
    case None
    then show ?thesis
      using Cons.IH [of "jointStep P D pt s"] Cons.prems
      by (simp add: jointStep_none timestampedPoints_def)
  next
    case (Some cur)
    have "timeDistancePairs (jointLoop P D pts (jointStep P D pt s)) =
          timeDistancePairs (jointStep P D pt s) @
          spec_jointPairs P D (pt # timestampedPoints P pts)"
      by (rule jointLoop_pairs_anchored)
         (simp_all add: jointStep_first [OF Some Cons.prems(2)] Some)
    then show ?thesis
      using Some by (simp add: jointStep_first [OF Some Cons.prems(2)] timestampedPoints_def)
  qed
qed

lemma mainStep_joint_frame:
  "timeDistancePairs (mainStep P D i pt s) = timeDistancePairs s"
  "prevPoint (mainStep P D i pt s) = prevPoint s"
  "prevTimestampMs (mainStep P D i pt s) = prevTimestampMs s"
  by (simp_all add: mainStep_defs split: option.splits prod.splits)

lemma afterMainLoop_joint_fresh:
  "timeDistancePairs (afterMainLoop P D pts) = [] \<and> prevPoint (afterMainLoop P D pts) = None \<and>
   prevTimestampMs (afterMainLoop P D pts) = None"
  unfolding afterMainLoop_def
  by (rule mainLoop_inv[where I = "\<lambda>s. timeDistancePairs s = [] \<and> prevPoint s = None \<and>
       prevTimestampMs s = None"])
     (simp_all add: mainStep_joint_frame initial_audit_def)

text \<open>
  C2, as amended. The joint-pair pass runs only when \<open>hasTimeProgression\<close> is true. It
  remembers only points with a valid timestamp, so a pair is produced for a point only
  when that point and the most recent earlier point with a valid timestamp both carry
  valid timestamps; points without a parseable timestamp between them are skipped. The
  series is the one the pairing rule gives on the sub-sequence of timestamped points.
\<close>

theorem joint_pairs_over_timestamped_points:
  "timeDistancePairs (auditSampling P D pts) =
     (if hasTimeProgression (auditSampling P D pts)
      then spec_jointPairs P D (timestampedPoints P pts)
      else [])"
proof -
  let ?s = "primarySeries (afterMainLoop P D pts)"
  have fresh: "timeDistancePairs ?s = []" "prevPoint ?s = None" "prevTimestampMs ?s = None"
    using afterMainLoop_joint_fresh [of P D pts] by (simp_all add: primarySeries_def)
  have prog: "hasTimeProgression ?s = hasTimeProgression (afterMainLoop P D pts)"
    by (simp add: primarySeries_def)
  have audit: "auditSampling P D pts = jointPass P D pts ?s"
    by (simp add: auditSampling_def afterMainLoop_def)
  show ?thesis
    unfolding auditSampling_fields
    by (simp add: audit jointPass_def prog jointLoop_pairs_fresh [OF fresh(2,3)] fresh(1))
qed

text \<open>
  The claim C2 as stated fails: in \<open>gapTrack\<close> the point before the last one in
  iteration order has no timestamp, yet the pass produces a pair for the last point, from
  the first point; pairing immediate neighbours gives no pair.
\<close>

theorem joint_pairs_over_timestamped_points_counterexample:
  "parseTimestamp sampleParse (gapTrack ! 1) = None \<and>
   timeDistancePairs (auditSampling sampleParse haversineDistance gapTrack) =
     [\<lparr>dtSec = 1, ddMeters = Fin (6371000 * pi)\<rparr>] \<and>
   spec_jointPairs sampleParse haversineDistance gapTrack = []"
  by (simp add: auditSampling_gapTrack)
     (simp add: gapTrack_def parseTimestamp_def sampleParse_def)

theorem joint_pairs_over_timestamped_points_witness:
  "hasTimeProgression (auditSampling sampleParse haversineDistance gapTrack) \<and>
   timestampedPoints sampleParse gapTrack = [gapTrack ! 0, gapTrack ! 2] \<and>
   timeDistancePairs (auditSampling sampleParse haversineDistance gapTrack) =
     spec_jointPairs sampleParse haversineDistance [gapTrack ! 0, gapTrack ! 2] \<and>
   \<not> hasTimeProgression (auditSampling sampleParse haversineDistance stalledTrack) \<and>
   timeDistancePairs (auditSampling sampleParse haversineDistance stalledTrack) = []"
  using joint_pairs_over_timestamped_points [of sampleParse haversineDistance gapTrack]
    joint_pairs_over_timestamped_points [of sampleParse haversineDistance stalledTrack]
  by (simp add: auditSampling_gapTrack auditSampling_stalledTrack)
     (simp add: gapTrack_def timestampedPoints_def parseTimestamp_def sampleParse_def
       validDistance_def js_gt_def haversineDistance_antipodal)

end

